theory Spec2Isabelle
  imports Complex_Main "HOL-Library.Sublist" "HOL-Library.Multiset"
begin

section \<open>The product matcher of \<^verbatim>\<open>backend/scraper.py\<close>\<close>

text \<open>
  This theory embeds \<^verbatim>\<open>match_products\<close> (scraper.py, lines 594-839) and states the
  properties of the specification over it.

  Conventions of the embedding.
  \<^item> A listing dictionary is the record \<open>listing\<close>; the value \<^verbatim>\<open>None\<close> of an optional
    field is \<open>None\<close>.
  \<^item> Python floats (prices, ratings, similarities, scores) are exact rationals: the
    rounding of binary floating point is not modelled.
  \<^item> A Python set of strings is a list of its elements. The source reads these sets
    through emptiness, equality as sets, membership and the size of an intersection,
    which the model reads through \<open>set\<close>; the order of the list is never observed,
    except at \<^verbatim>\<open>list(amz_sizes)[0]\<close>, see \<open>first_of\<close>.
  \<^item> The embedding model (\<^verbatim>\<open>get_model().encode\<close>) and \<^verbatim>\<open>util.cos_sim\<close> are external: the
    matrix \<^verbatim>\<open>cosine_scores\<close> they produce is a parameter, a function from the row
    and column index to the similarity.
  \<^item> \<^verbatim>\<open>int(...)\<close> raises \<^verbatim>\<open>ValueError\<close> on a string that is no integer literal; the
    model returns \<open>Inl ValueError\<close> there and threads it through both loops.
  \<^item> The field \<^verbatim>\<open>'words'\<close> of \<^verbatim>\<open>amz_data\<close> and \<^verbatim>\<open>fk_data\<close>, the field
    \<^verbatim>\<open>'embedding'\<close> and the \<^verbatim>\<open>print\<close> calls are never read by the matching and are left out.
\<close>

subsection \<open>Data\<close>

datatype error = ValueError

record listing =
  title :: string
  price :: "rat option"
  image :: "string option"
  link :: "string option"
  rating :: "rat option"
  is_prime :: bool

type_synonym identifiers = "string list"

record amz_entry =
  amz_p :: listing
  amz_identifiers :: identifiers

record fk_entry =
  fk_idx :: int
  fk_p :: listing
  fk_identifiers :: identifiers

text \<open>The dictionary appended to \<^verbatim>\<open>unified_products\<close> (lines 797-807 and 817-827).\<close>

record unified =
  u_id :: int
  u_title :: string
  u_image :: "string option"
  u_rating :: "rat option"
  u_is_prime :: bool
  amazon_price :: "rat option"
  amazon_link :: "string option"
  flipkart_price :: "rat option"
  flipkart_link :: "string option"

text \<open>The same dictionary once the last loop has added \<^verbatim>\<open>'has_comparison'\<close>.\<close>

record unified_product = unified +
  has_comparison :: bool

text \<open>The three variables the inner loop updates.\<close>

record best =
  best_match :: "listing option"
  best_score :: rat
  best_idx :: int

subsection \<open>Strings, sets and numbers of Python\<close>

definition startswith :: "string \<Rightarrow> string \<Rightarrow> bool" where
  "startswith p x = prefix p x"

definition endswith :: "string \<Rightarrow> string \<Rightarrow> bool" where
  "endswith s x = suffix s x"

text \<open>\<^verbatim>\<open>x.replace(old, new)\<close> for a non-empty \<open>old\<close>: every occurrence, left to right,
  without overlap. The source only calls \<^verbatim>\<open>replace('inch', '')\<close>.\<close>

function replace :: "string \<Rightarrow> string \<Rightarrow> string \<Rightarrow> string" where
  "replace old new [] = []"
| "replace old new (c # cs) =
     (if old \<noteq> [] \<and> prefix old (c # cs)
      then new @ replace old new (drop (length old) (c # cs))
      else c # replace old new cs)"
  by pat_completeness auto
termination
  by (relation "measure (\<lambda>(old, new, s). length s)") (auto simp: Suc_le_eq)

definition is_digit :: "char \<Rightarrow> bool" where
  "is_digit c = (c \<in> set ''0123456789'')"

definition is_space :: "char \<Rightarrow> bool" where
  "is_space c = (c \<in> set [CHR '' '', CHR 0x09, CHR 0x0A, CHR 0x0B, CHR 0x0C, CHR 0x0D,
                           CHR 0x1C, CHR 0x1D, CHR 0x1E, CHR 0x1F])"

definition digit_val :: "char \<Rightarrow> int" where
  "digit_val c = int (of_char c) - 48"

definition decimal :: "string \<Rightarrow> int" where
  "decimal ds = foldl (\<lambda>v c. 10 * v + digit_val c) 0 ds"

text \<open>The digits of an integer literal: digits, with single underscores between them.\<close>

fun literal_body :: "string \<Rightarrow> bool" where
  "literal_body [] = False"
| "literal_body [c] = is_digit c"
| "literal_body (c # d # cs) =
     (is_digit c \<and> (if d = CHR ''_'' then literal_body cs else literal_body (d # cs)))"

definition strip :: "string \<Rightarrow> string" where
  "strip s = rev (dropWhile is_space (rev (dropWhile is_space s)))"

text \<open>\<^verbatim>\<open>int(s)\<close> on a string, base 10, for ASCII input: surrounding white space, an
  optional sign, then the digits; anything else raises \<^verbatim>\<open>ValueError\<close>.\<close>

definition py_int :: "string \<Rightarrow> error + int" where
  "py_int s =
     (let t = strip s;
          neg = (t \<noteq> [] \<and> hd t = CHR ''-'');
          body = (if t \<noteq> [] \<and> (hd t = CHR ''-'' \<or> hd t = CHR ''+'') then tl t else t)
      in if literal_body body
         then Inr ((if neg then - 1 else 1) * decimal (filter is_digit body))
         else Inl ValueError)"

text \<open>\<^verbatim>\<open>a & b\<close> and \<^verbatim>\<open>a.intersection(b)\<close>: the elements of \<open>a\<close> that are in \<open>b\<close>.\<close>

definition inter :: "string list \<Rightarrow> string list \<Rightarrow> string list" where
  "inter a b = filter (\<lambda>x. x \<in> set b) a"

text \<open>\<^verbatim>\<open>list(s)[0]\<close> on a non-empty set \<open>s\<close>: the element the iteration of the set yields
  first. Python fixes no order for a set, and for strings the order follows a hash that
  is salted per process. The parameter \<open>pick\<close> stands for this choice: it may select
  any element, and every theorem below holds for every \<open>pick\<close>.\<close>

definition first_of :: "(string list \<Rightarrow> nat) \<Rightarrow> string list \<Rightarrow> string" where
  "first_of pick s = (let ys = remdups s in ys ! (pick ys mod length ys))"

text \<open>Truth value of a price: \<^verbatim>\<open>None\<close> and \<^verbatim>\<open>0\<close> are false.\<close>

definition truthy :: "rat option \<Rightarrow> bool" where
  "truthy p = (case p of None \<Rightarrow> False | Some v \<Rightarrow> v \<noteq> 0)"

subsection \<open>The conflict rules (lines 657-738)\<close>

definition tagged :: "string \<Rightarrow> identifiers \<Rightarrow> string list" where
  "tagged p ids = filter (startswith p) ids"

definition series_conflict :: "identifiers \<Rightarrow> identifiers \<Rightarrow> bool" where
  "series_conflict a f =
     (let amz_series = tagged ''series_'' a; fk_series = tagged ''series_'' f
      in amz_series \<noteq> [] \<and> fk_series \<noteq> [] \<and> set amz_series \<noteq> set fk_series)"

definition res_types :: "string list" where
  "res_types = [''4k'', ''fhd'', ''hd'']"

definition resolution_conflict :: "identifiers \<Rightarrow> identifiers \<Rightarrow> bool" where
  "resolution_conflict a f =
     (let amz_res = inter a res_types; fk_res = inter f res_types
      in amz_res \<noteq> [] \<and> fk_res \<noteq> [] \<and> inter amz_res fk_res = [])"

definition size_conflict ::
  "(string list \<Rightarrow> nat) \<Rightarrow> identifiers \<Rightarrow> identifiers \<Rightarrow> error + bool" where
  "size_conflict pick a f =
     (let amz_sizes = filter (endswith ''inch'') a;
          fk_sizes = filter (endswith ''inch'') f
      in if amz_sizes \<noteq> [] \<and> fk_sizes \<noteq> [] then
           (case py_int (replace ''inch'' '''' (first_of pick amz_sizes)) of
              Inl e \<Rightarrow> Inl e
            | Inr amz_val \<Rightarrow>
               (case py_int (replace ''inch'' '''' (first_of pick fk_sizes)) of
                  Inl e \<Rightarrow> Inl e
                | Inr fk_val \<Rightarrow> Inr (\<bar>amz_val - fk_val\<bar> > 1)))
         else Inr False)"

definition variants :: "string list" where
  "variants = [''pro'', ''max'', ''plus'', ''ultra'', ''mini'', ''air'', ''lite'', ''fe'',
               ''v2'', ''gen'', ''generation'']"

definition variant_conflict :: "identifiers \<Rightarrow> identifiers \<Rightarrow> bool" where
  "variant_conflict a f =
     (let amz_vars = inter a variants; fk_vars = inter f variants
      in set amz_vars \<noteq> set fk_vars)"

definition price_conflict :: "rat option \<Rightarrow> rat option \<Rightarrow> bool" where
  "price_conflict amz_price fk_price =
     (case (amz_price, fk_price) of
        (Some p1, Some p2) \<Rightarrow>
          (if p1 \<noteq> 0 \<and> p2 \<noteq> 0 then \<bar>p1 - p2\<bar> / min p1 p2 > 0.8 else False)
      | _ \<Rightarrow> False)"

definition color_conflict :: "identifiers \<Rightarrow> identifiers \<Rightarrow> bool" where
  "color_conflict a f =
     (let amz_colors = tagged ''color_'' a; fk_colors = tagged ''color_'' f
      in amz_colors \<noteq> [] \<and> fk_colors \<noteq> [] \<and> set amz_colors \<noteq> set fk_colors)"

definition unit_conflict :: "identifiers \<Rightarrow> identifiers \<Rightarrow> bool" where
  "unit_conflict a f =
     (let amz_units = tagged ''unit_'' a; fk_units = tagged ''unit_'' f
      in amz_units \<noteq> [] \<and> fk_units \<noteq> [] \<and> set amz_units \<noteq> set fk_units)"

definition storage_conflict :: "identifiers \<Rightarrow> identifiers \<Rightarrow> bool" where
  "storage_conflict a f =
     (let amz_storage = tagged ''storage_'' a; fk_storage = tagged ''storage_'' f
      in amz_storage \<noteq> [] \<and> fk_storage \<noteq> [] \<and> inter amz_storage fk_storage = [])"

definition watt_conflict :: "identifiers \<Rightarrow> identifiers \<Rightarrow> bool" where
  "watt_conflict a f =
     (let amz_watt = tagged ''watt_'' a; fk_watt = tagged ''watt_'' f
      in amz_watt \<noteq> [] \<and> fk_watt \<noteq> [] \<and> set amz_watt \<noteq> set fk_watt)"

definition appmodel_conflict :: "identifiers \<Rightarrow> identifiers \<Rightarrow> bool" where
  "appmodel_conflict a f =
     (let amz_appmodel = tagged ''appmodel_'' a; fk_appmodel = tagged ''appmodel_'' f
      in amz_appmodel \<noteq> [] \<and> fk_appmodel \<noteq> [] \<and> inter amz_appmodel fk_appmodel = [])"

definition jars_conflict :: "identifiers \<Rightarrow> identifiers \<Rightarrow> bool" where
  "jars_conflict a f =
     (let amz_jars = tagged ''jars_'' a; fk_jars = tagged ''jars_'' f
      in amz_jars \<noteq> [] \<and> fk_jars \<noteq> [] \<and> set amz_jars \<noteq> set fk_jars)"

subsection \<open>Scoring and the confidence gates (lines 740-795)\<close>

definition model_match :: "identifiers \<Rightarrow> identifiers \<Rightarrow> bool" where
  "model_match a f =
     (let amz_models = tagged ''model_'' a; fk_models = tagged ''model_'' f
      in amz_models \<noteq> [] \<and> fk_models \<noteq> [] \<and> inter amz_models fk_models \<noteq> [])"

text \<open>\<^verbatim>\<open>len(amz_identifiers & fk['identifiers'])\<close>: the number of distinct common tags.\<close>

definition identifier_overlap :: "identifiers \<Rightarrow> identifiers \<Rightarrow> nat" where
  "identifier_overlap a f = length (remdups (inter a f))"

definition score :: "rat \<Rightarrow> identifiers \<Rightarrow> identifiers \<Rightarrow> rat" where
  "score semantic_score a f =
     (let s = semantic_score;
          s = s + of_nat (identifier_overlap a f) * 0.1
      in if model_match a f then s + 0.5 else s)"

definition brand_ids :: "string list" where
  "brand_ids = [''apple'', ''iphone'', ''samsung'', ''oneplus'', ''xiaomi'', ''redmi'',
       ''realme'', ''oppo'', ''vivo'', ''poco'', ''motorola'', ''google'', ''pixel'',
       ''nothing'', ''mi'', ''lg'', ''sony'', ''boat'', ''jbl'']"

definition key_match_count :: "identifiers \<Rightarrow> identifiers \<Rightarrow> nat" where
  "key_match_count a f =
     (let amz_storage = tagged ''storage_'' a; fk_storage = tagged ''storage_'' f;
          amz_colors = tagged ''color_'' a; fk_colors = tagged ''color_'' f;
          k = 0;
          k = (if inter (inter a brand_ids) (inter f brand_ids) \<noteq> [] then k + 1 else k);
          k = (if amz_storage \<noteq> [] \<and> fk_storage \<noteq> [] \<and> set amz_storage = set fk_storage
               then k + 1 else k);
          k = (if amz_colors \<noteq> [] \<and> fk_colors \<noteq> [] \<and> set amz_colors = set fk_colors
               then k + 1 else k)
      in k)"

text \<open>The three assignments every branch of lines 777-795 makes.\<close>

definition take_candidate :: "rat \<Rightarrow> fk_entry \<Rightarrow> best" where
  "take_candidate sc fk = \<lparr>best_match = Some (fk_p fk), best_score = sc, best_idx = fk_idx fk\<rparr>"

text \<open>The hard rejection of line 758, the size rule apart (it may raise).\<close>

definition other_conflict :: "amz_entry \<Rightarrow> fk_entry \<Rightarrow> bool" where
  "other_conflict amz fk =
     (let a = amz_identifiers amz; f = fk_identifiers fk
      in series_conflict a f \<or> resolution_conflict a f \<or> storage_conflict a f \<or>
         color_conflict a f \<or> unit_conflict a f \<or> variant_conflict a f \<or>
         price_conflict (price (amz_p amz)) (price (fk_p fk)) \<or> watt_conflict a f \<or>
         appmodel_conflict a f \<or> jars_conflict a f)"

text \<open>One pass of the body of the inner loop (lines 654-795) for a candidate that is
  not in \<^verbatim>\<open>used_flipkart\<close>. All conflicts are computed before the rejection, so the
  \<^verbatim>\<open>ValueError\<close> of the size rule is raised whether or not another rule rejects.\<close>

definition candidate ::
  "(string list \<Rightarrow> nat) \<Rightarrow> rat \<Rightarrow> amz_entry \<Rightarrow> fk_entry \<Rightarrow> best \<Rightarrow> error + best" where
  "candidate pick semantic_score amz fk b =
     (let a = amz_identifiers amz; f = fk_identifiers fk
      in case size_conflict pick a f of
           Inl e \<Rightarrow> Inl e
         | Inr size_c \<Rightarrow>
            (if size_c \<or> other_conflict amz fk then Inr b
             else
               (let sc = score semantic_score a f;
                    k = key_match_count a f
                in if sc > best_score b then
                     (if k \<ge> 3 \<and> semantic_score > 0.5 then Inr (take_candidate sc fk)
                      else if k \<ge> 2 \<and> semantic_score > 0.6 then Inr (take_candidate sc fk)
                      else if model_match a f then Inr (take_candidate sc fk)
                      else if semantic_score > 0.78 then Inr (take_candidate sc fk)
                      else Inr b)
                   else Inr b)))"

subsection \<open>The two loops and the result (lines 599-839)\<close>

fun inner_loop ::
  "(string list \<Rightarrow> nat) \<Rightarrow> (nat \<Rightarrow> rat) \<Rightarrow> int set \<Rightarrow> amz_entry \<Rightarrow>
   (nat \<times> fk_entry) list \<Rightarrow> best \<Rightarrow> error + best" where
  "inner_loop pick row used_flipkart amz [] b = Inr b"
| "inner_loop pick row used_flipkart amz ((j, fk) # rest) b =
     (if fk_idx fk \<in> used_flipkart then inner_loop pick row used_flipkart amz rest b
      else (case candidate pick (row j) amz fk b of
              Inl e \<Rightarrow> Inl e
            | Inr b' \<Rightarrow> inner_loop pick row used_flipkart amz rest b'))"

definition no_best :: best where
  "no_best = \<lparr>best_match = None, best_score = 0, best_idx = - 1\<rparr>"

definition amz_unified :: "nat \<Rightarrow> listing \<Rightarrow> listing option \<Rightarrow> unified" where
  "amz_unified n amz_product bm =
     \<lparr>u_id = int n + 1,
      u_title = title amz_product,
      u_image = image amz_product,
      u_rating = rating amz_product,
      u_is_prime = is_prime amz_product,
      amazon_price = price amz_product,
      amazon_link = link amz_product,
      flipkart_price = (case bm of Some m \<Rightarrow> price m | None \<Rightarrow> None),
      flipkart_link = (case bm of Some m \<Rightarrow> link m | None \<Rightarrow> None)\<rparr>"

fun outer_loop ::
  "(string list \<Rightarrow> nat) \<Rightarrow> (nat \<Rightarrow> nat \<Rightarrow> rat) \<Rightarrow> fk_entry list \<Rightarrow>
   (nat \<times> amz_entry) list \<Rightarrow> unified list \<times> int set \<Rightarrow> error + (unified list \<times> int set)" where
  "outer_loop pick cosine_scores fk_data [] st = Inr st"
| "outer_loop pick cosine_scores fk_data ((i, amz) # rest) (unified_products, used_flipkart) =
     (case inner_loop pick (cosine_scores i) used_flipkart amz (enumerate 0 fk_data) no_best of
        Inl e \<Rightarrow> Inl e
      | Inr b \<Rightarrow>
          outer_loop pick cosine_scores fk_data rest
            (unified_products @ [amz_unified (length unified_products) (amz_p amz) (best_match b)],
             (if best_match b \<noteq> None then insert (best_idx b) used_flipkart
              else used_flipkart)))"

definition fk_unified :: "nat \<Rightarrow> listing \<Rightarrow> unified" where
  "fk_unified n fk_product =
     \<lparr>u_id = int n + 1,
      u_title = title fk_product,
      u_image = image fk_product,
      u_rating = rating fk_product,
      u_is_prime = False,
      amazon_price = None,
      amazon_link = None,
      flipkart_price = price fk_product,
      flipkart_link = link fk_product\<rparr>"

fun add_unmatched :: "int set \<Rightarrow> (nat \<times> listing) list \<Rightarrow> unified list \<Rightarrow> unified list" where
  "add_unmatched used_flipkart [] unified_products = unified_products"
| "add_unmatched used_flipkart ((idx, fk_product) # rest) unified_products =
     (if int idx \<notin> used_flipkart
      then add_unmatched used_flipkart rest
             (unified_products @ [fk_unified (length unified_products) fk_product])
      else add_unmatched used_flipkart rest unified_products)"

definition both_prices :: "unified \<Rightarrow> bool" where
  "both_prices p = (truthy (amazon_price p) \<and> truthy (flipkart_price p))"

definition reassign :: "nat \<times> unified \<Rightarrow> unified_product" where
  "reassign = (\<lambda>(i, product).
     \<lparr>u_id = int i + 1,
      u_title = u_title product,
      u_image = u_image product,
      u_rating = u_rating product,
      u_is_prime = u_is_prime product,
      amazon_price = amazon_price product,
      amazon_link = amazon_link product,
      flipkart_price = flipkart_price product,
      flipkart_link = flipkart_link product,
      has_comparison = both_prices product\<rparr>)"

definition sort_products :: "unified list \<Rightarrow> unified_product list" where
  "sort_products unified_products =
     (let matched = filter both_prices unified_products;
          unmatched = filter (\<lambda>p. \<not> both_prices p) unified_products;
          sorted_products = matched @ unmatched
      in map reassign (enumerate 0 sorted_products))"

definition make_amz_data :: "(string \<Rightarrow> identifiers) \<Rightarrow> listing list \<Rightarrow> amz_entry list" where
  "make_amz_data ext amazon_products =
     map (\<lambda>amz_p. \<lparr>amz_p = amz_p, amz_identifiers = ext (title amz_p)\<rparr>) amazon_products"

definition make_fk_data :: "(string \<Rightarrow> identifiers) \<Rightarrow> listing list \<Rightarrow> fk_entry list" where
  "make_fk_data ext flipkart_products =
     map (\<lambda>(idx, fk_p). \<lparr>fk_idx = int idx, fk_p = fk_p, fk_identifiers = ext (title fk_p)\<rparr>)
       (enumerate 0 flipkart_products)"

text \<open>\<^verbatim>\<open>unified_products\<close> as it stands at line 828, before the final ordering.\<close>

definition unified_before_sort ::
  "(string \<Rightarrow> identifiers) \<Rightarrow> (string list \<Rightarrow> nat) \<Rightarrow> (nat \<Rightarrow> nat \<Rightarrow> rat) \<Rightarrow>
   listing list \<Rightarrow> listing list \<Rightarrow> error + unified list" where
  "unified_before_sort ext pick cosine_scores amazon_products flipkart_products =
     (case outer_loop pick cosine_scores (make_fk_data ext flipkart_products)
             (enumerate 0 (make_amz_data ext amazon_products)) ([], {}) of
        Inl e \<Rightarrow> Inl e
      | Inr (unified_products, used_flipkart) \<Rightarrow>
          Inr (add_unmatched used_flipkart (enumerate 0 flipkart_products) unified_products))"

text \<open>\<^verbatim>\<open>match_products\<close>, with the identifier extractor \<open>ext\<close>, the choice \<open>pick\<close> and
  the similarity matrix as parameters.\<close>

definition match_products_with ::
  "(string \<Rightarrow> identifiers) \<Rightarrow> (string list \<Rightarrow> nat) \<Rightarrow> (nat \<Rightarrow> nat \<Rightarrow> rat) \<Rightarrow>
   listing list \<Rightarrow> listing list \<Rightarrow> error + unified_product list" where
  "match_products_with ext pick cosine_scores amazon_products flipkart_products =
     (if amazon_products = [] \<or> flipkart_products = [] then Inr []
      else
        (case unified_before_sort ext pick cosine_scores amazon_products flipkart_products of
           Inl e \<Rightarrow> Inl e
         | Inr unified_products \<Rightarrow> Inr (sort_products unified_products)))"

subsection \<open>Notions used to state the properties\<close>

text \<open>The matches the outer loop makes: the final \<^verbatim>\<open>best_match\<close>, \<^verbatim>\<open>best_score\<close> and
  \<^verbatim>\<open>best_idx\<close> of every anchor, in the order of the anchors, with \<^verbatim>\<open>used_flipkart\<close>
  threaded as lines 809-810 do.\<close>

fun matching ::
  "(string list \<Rightarrow> nat) \<Rightarrow> (nat \<Rightarrow> nat \<Rightarrow> rat) \<Rightarrow> fk_entry list \<Rightarrow>
   (nat \<times> amz_entry) list \<Rightarrow> int set \<Rightarrow> error + best list" where
  "matching pick cosine_scores fk_data [] used_flipkart = Inr []"
| "matching pick cosine_scores fk_data ((i, amz) # rest) used_flipkart =
     (case inner_loop pick (cosine_scores i) used_flipkart amz (enumerate 0 fk_data) no_best of
        Inl e \<Rightarrow> Inl e
      | Inr b \<Rightarrow>
         (case matching pick cosine_scores fk_data rest
                 (if best_match b \<noteq> None then insert (best_idx b) used_flipkart
                  else used_flipkart) of
            Inl e \<Rightarrow> Inl e
          | Inr bs \<Rightarrow> Inr (b # bs)))"

definition matches ::
  "(string \<Rightarrow> identifiers) \<Rightarrow> (string list \<Rightarrow> nat) \<Rightarrow> (nat \<Rightarrow> nat \<Rightarrow> rat) \<Rightarrow>
   listing list \<Rightarrow> listing list \<Rightarrow> error + best list" where
  "matches ext pick cosine_scores amazon_products flipkart_products =
     matching pick cosine_scores (make_fk_data ext flipkart_products)
       (enumerate 0 (make_amz_data ext amazon_products)) {}"

text \<open>The indices of the B-listings that a list of matches consumes.\<close>

definition consumed :: "best list \<Rightarrow> int set" where
  "consumed bs = best_idx ` {b \<in> set bs. best_match b \<noteq> None}"

text \<open>The B-listings no match consumes, in input order.\<close>

definition leftover :: "best list \<Rightarrow> listing list \<Rightarrow> listing list" where
  "leftover bs flipkart_products =
     map snd (filter (\<lambda>(idx, p). int idx \<notin> consumed bs) (enumerate 0 flipkart_products))"

text \<open>A unified record without its \<^verbatim>\<open>id\<close> and \<^verbatim>\<open>has_comparison\<close>.\<close>

record fields =
  f_title :: string
  f_image :: "string option"
  f_rating :: "rat option"
  f_is_prime :: bool
  f_amazon_price :: "rat option"
  f_amazon_link :: "string option"
  f_flipkart_price :: "rat option"
  f_flipkart_link :: "string option"

definition fields_of :: "'a unified_scheme \<Rightarrow> fields" where
  "fields_of p =
     \<lparr>f_title = u_title p, f_image = u_image p, f_rating = u_rating p,
      f_is_prime = u_is_prime p, f_amazon_price = amazon_price p,
      f_amazon_link = amazon_link p, f_flipkart_price = flipkart_price p,
      f_flipkart_link = flipkart_link p\<rparr>"

text \<open>The fields of the record of an anchor, given its match, and of a leftover.\<close>

definition anchor_fields :: "listing \<Rightarrow> best \<Rightarrow> fields" where
  "anchor_fields a b =
     \<lparr>f_title = title a, f_image = image a, f_rating = rating a, f_is_prime = is_prime a,
      f_amazon_price = price a, f_amazon_link = link a,
      f_flipkart_price = (case best_match b of Some m \<Rightarrow> price m | None \<Rightarrow> None),
      f_flipkart_link = (case best_match b of Some m \<Rightarrow> link m | None \<Rightarrow> None)\<rparr>"

definition leftover_fields :: "listing \<Rightarrow> fields" where
  "leftover_fields p =
     \<lparr>f_title = title p, f_image = image p, f_rating = rating p, f_is_prime = False,
      f_amazon_price = None, f_amazon_link = None,
      f_flipkart_price = price p, f_flipkart_link = link p\<rparr>"

definition has_both :: "fields \<Rightarrow> bool" where
  "has_both r = (truthy (f_amazon_price r) \<and> truthy (f_flipkart_price r))"

text \<open>The fields of \<^verbatim>\<open>unified_products\<close> before the final ordering, given the matches:
  one record per anchor, in input order, then the leftovers.\<close>

definition before_sort :: "listing list \<Rightarrow> listing list \<Rightarrow> best list \<Rightarrow> fields list" where
  "before_sort amazon_products flipkart_products bs =
     map (\<lambda>(a, b). anchor_fields a b) (zip amazon_products bs) @
     map leftover_fields (leftover bs flipkart_products)"



text \<open>What the inner loop leaves for an anchor: nothing, or an unused candidate that no
  rule rejects.\<close>

definition chosen ::
  "(string list \<Rightarrow> nat) \<Rightarrow> (nat \<Rightarrow> rat) \<Rightarrow> int set \<Rightarrow> amz_entry \<Rightarrow> fk_entry list \<Rightarrow> best \<Rightarrow> bool" where
  "chosen pick row used amz fk_data b =
     (\<exists>j < length fk_data. fk_idx (fk_data ! j) \<notin> used \<and>
        b = take_candidate (score (row j) (amz_identifiers amz) (fk_identifiers (fk_data ! j)))
              (fk_data ! j) \<and>
        size_conflict pick (amz_identifiers amz) (fk_identifiers (fk_data ! j)) = Inr False \<and>
        \<not> other_conflict amz (fk_data ! j))"


subsection \<open>Concrete listings\<close>

text \<open>Listings used to evaluate the matcher. \<open>ids_of_title\<close> tabulates what
  \<^verbatim>\<open>extract_key_identifiers\<close> (lines 403-591) returns for their titles:
  \<^item> \<^verbatim>\<open>"LG 32 inch TV"\<close>: the brand \<^verbatim>\<open>lg\<close>; the size pattern of line 434 matches
    \<^verbatim>\<open>32 inch\<close> and gives \<^verbatim>\<open>32inch\<close>; no token has both a digit and a letter.
  \<^item> \<^verbatim>\<open>"LG 33 inch TV"\<close> and \<^verbatim>\<open>"LG 43 inch TV"\<close>: likewise \<^verbatim>\<open>lg\<close> with \<^verbatim>\<open>33inch\<close> and
    \<^verbatim>\<open>43inch\<close>.
  \<^item> \<^verbatim>\<open>"LG 32-inch TV"\<close>: the brand \<^verbatim>\<open>lg\<close>; the size pattern does not match, since
    a hyphen follows the digits; the token \<^verbatim>\<open>32-inch\<close> has a digit and a letter and
    normalises to \<^verbatim>\<open>32inch\<close> (lines 545-552), which gives \<^verbatim>\<open>model_32inch\<close>.
  \<^item> \<^verbatim>\<open>"LG TV 32inch"\<close>: the brand \<^verbatim>\<open>lg\<close>; the size pattern matches \<^verbatim>\<open>32inch\<close>, and
    the token \<^verbatim>\<open>32inch\<close> also gives \<^verbatim>\<open>model_32inch\<close>.
  \<^item> \<^verbatim>\<open>"USB Cable Black White"\<close> and \<^verbatim>\<open>"USB Cable Black"\<close>: the colours only.
  \<^item> \<^verbatim>\<open>"Samsung Galaxy S21 128GB Black"\<close>: the brand \<^verbatim>\<open>samsung\<close>; \<^verbatim>\<open>128gb\<close>, which has
    neither \<^verbatim>\<open>ram\<close> nor \<^verbatim>\<open>rom\<close> nor \<^verbatim>\<open>storage\<close> in its window and is the largest
    candidate, hence \<^verbatim>\<open>storage_128gb\<close>; \<^verbatim>\<open>color_black\<close>; the token \<^verbatim>\<open>128gb\<close> gives
    \<^verbatim>\<open>model_128gb\<close>; the phone patterns give \<^verbatim>\<open>s21\<close> and \<^verbatim>\<open>galaxys21\<close>. The same with
    256 for \<^verbatim>\<open>"Samsung Galaxy S21 256GB Black"\<close>.
  \<^item> \<^verbatim>\<open>"HP Laptop 512 GB Silver"\<close>: of the brands of lines 412-427 only \<^verbatim>\<open>hp\<close> is a
    substring of the lowered title; the storage pattern of line 448 matches \<^verbatim>\<open>512 gb\<close>
    and gives \<^verbatim>\<open>512gb\<close>; its window is the whole title, without \<^verbatim>\<open>ram\<close>, \<^verbatim>\<open>rom\<close> or
    \<^verbatim>\<open>storage\<close>, hence \<^verbatim>\<open>storage_512gb\<close>; \<^verbatim>\<open>color_silver\<close>; the tokens \<^verbatim>\<open>512\<close> and \<^verbatim>\<open>gb\<close>
    are apart, so no token has both a digit and a letter. The same with \<^verbatim>\<open>lg\<close> for
    \<^verbatim>\<open>"LG Laptop 512 GB Silver"\<close>.\<close>

definition ids_of_title :: "string \<Rightarrow> identifiers" where
  "ids_of_title t =
     (if t = ''LG 32 inch TV'' then [''lg'', ''32inch'']
      else if t = ''LG 33 inch TV'' then [''lg'', ''33inch'']
      else if t = ''LG 43 inch TV'' then [''lg'', ''43inch'']
      else if t = ''LG 32-inch TV'' then [''lg'', ''model_32inch'']
      else if t = ''LG TV 32inch'' then [''lg'', ''32inch'', ''model_32inch'']
      else if t = ''USB Cable Black White'' then [''color_black'', ''color_white'']
      else if t = ''USB Cable Black'' then [''color_black'']
      else if t = ''Samsung Galaxy S21 128GB Black''
        then [''samsung'', ''128gb'', ''storage_128gb'', ''color_black'', ''model_128gb'',
              ''s21'', ''galaxys21'']
      else if t = ''Samsung Galaxy S21 256GB Black''
        then [''samsung'', ''256gb'', ''storage_256gb'', ''color_black'', ''model_256gb'',
              ''s21'', ''galaxys21'']
      else if t = ''HP Laptop 512 GB Silver''
        then [''hp'', ''512gb'', ''storage_512gb'', ''color_silver'']
      else if t = ''LG Laptop 512 GB Silver''
        then [''lg'', ''512gb'', ''storage_512gb'', ''color_silver'']
      else [])"

definition amz_listing :: "string \<Rightarrow> rat \<Rightarrow> listing" where
  "amz_listing t p =
     \<lparr>title = t, price = Some p, image = Some ''a.jpg'', link = Some ''amazon.in/dp/1'',
      rating = Some 4.5, is_prime = True\<rparr>"

definition fk_listing :: "string \<Rightarrow> rat \<Rightarrow> listing" where
  "fk_listing t p =
     \<lparr>title = t, price = Some p, image = Some ''f.jpg'', link = Some ''flipkart.com/p/1'',
      rating = Some 4, is_prime = False\<rparr>"

text \<open>A similarity matrix with 0.9 in every cell, and the choice of the first element.\<close>

definition sim_09 :: "nat \<Rightarrow> nat \<Rightarrow> rat" where
  "sim_09 i j = 0.9"

definition pick_first :: "string list \<Rightarrow> nat" where
  "pick_first ys = 0"

definition pick_last :: "string list \<Rightarrow> nat" where
  "pick_last ys = length ys - 1"

text \<open>Two A-listings and one B-listing: the first anchor takes the B-listing, the second
  stays unmatched.\<close>

definition demo_amazon :: "listing list" where
  "demo_amazon = [amz_listing ''LG 32 inch TV'' 15000, amz_listing ''LG 43 inch TV'' 30000]"

definition demo_flipkart :: "listing list" where
  "demo_flipkart = [fk_listing ''LG 32 inch TV'' 14500]"

definition demo_result :: "unified_product list" where
  "demo_result =
     [\<lparr>u_id = 1, u_title = ''LG 32 inch TV'', u_image = Some ''a.jpg'', u_rating = Some 4.5,
       u_is_prime = True, amazon_price = Some 15000, amazon_link = Some ''amazon.in/dp/1'',
       flipkart_price = Some 14500, flipkart_link = Some ''flipkart.com/p/1'',
       has_comparison = True\<rparr>,
      \<lparr>u_id = 2, u_title = ''LG 43 inch TV'', u_image = Some ''a.jpg'', u_rating = Some 4.5,
       u_is_prime = True, amazon_price = Some 30000, amazon_link = Some ''amazon.in/dp/1'',
       flipkart_price = None, flipkart_link = None, has_comparison = False\<rparr>]"

text \<open>The entries of \<^verbatim>\<open>amz_data\<close> and \<^verbatim>\<open>fk_data\<close> for the first pair of the run above.\<close>

definition demo_amz :: amz_entry where
  "demo_amz = \<lparr>amz_p = amz_listing ''LG 32 inch TV'' 15000,
                amz_identifiers = ids_of_title ''LG 32 inch TV''\<rparr>"

definition demo_fk :: fk_entry where
  "demo_fk = \<lparr>fk_idx = 0, fk_p = fk_listing ''LG 32 inch TV'' 14500,
               fk_identifiers = ids_of_title ''LG 32 inch TV''\<rparr>"

text \<open>Two phones that differ in storage only.\<close>

definition s21_128 :: "listing list" where
  "s21_128 = [amz_listing ''Samsung Galaxy S21 128GB Black'' 69900]"

definition s21_256 :: "listing list" where
  "s21_256 = [fk_listing ''Samsung Galaxy S21 256GB Black'' 73900]"





text \<open>One A-listing and two B-listings: the size rule rejects the first B-listing, the
  anchor takes the second, and the first is left over.\<close>

definition left_amazon :: "listing list" where
  "left_amazon = [amz_listing ''LG 32 inch TV'' 15000]"

definition left_flipkart :: "listing list" where
  "left_flipkart = [fk_listing ''LG 43 inch TV'' 31000, fk_listing ''LG 32 inch TV'' 14500]"

definition left_result :: "unified_product list" where
  "left_result =
     [\<lparr>u_id = 1, u_title = ''LG 32 inch TV'', u_image = Some ''a.jpg'', u_rating = Some 4.5,
       u_is_prime = True, amazon_price = Some 15000, amazon_link = Some ''amazon.in/dp/1'',
       flipkart_price = Some 14500, flipkart_link = Some ''flipkart.com/p/1'',
       has_comparison = True\<rparr>,
      \<lparr>u_id = 2, u_title = ''LG 43 inch TV'', u_image = Some ''f.jpg'', u_rating = Some 4,
       u_is_prime = False, amazon_price = None, amazon_link = None,
       flipkart_price = Some 31000, flipkart_link = Some ''flipkart.com/p/1'',
       has_comparison = False\<rparr>]"

definition left_matches :: "best list" where
  "left_matches =
     [\<lparr>best_match = Some (fk_listing ''LG 32 inch TV'' 14500), best_score = 1.1, best_idx = 1\<rparr>]"

section \<open>The loops\<close>

lemma candidate_cases:
  assumes "candidate pick s amz fk b = Inr b'"
  shows "b' = b \<or>
         (b' = take_candidate (score s (amz_identifiers amz) (fk_identifiers fk)) fk \<and>
          size_conflict pick (amz_identifiers amz) (fk_identifiers fk) = Inr False \<and>
          \<not> other_conflict amz fk)"
  using assms
  by (auto simp: candidate_def Let_def split: sum.splits if_splits)

lemma inner_loop_cases:
  assumes "inner_loop pick row used amz jfks b = Inr b'"
  shows "b' = b \<or>
         (\<exists>(j, fk) \<in> set jfks. fk_idx fk \<notin> used \<and>
            b' = take_candidate (score (row j) (amz_identifiers amz) (fk_identifiers fk)) fk \<and>
            size_conflict pick (amz_identifiers amz) (fk_identifiers fk) = Inr False \<and>
            \<not> other_conflict amz fk)"
  using assms
proof (induction jfks arbitrary: b)
  case Nil
  then show ?case by simp
next
  case (Cons x jfks)
  obtain j fk where x: "x = (j, fk)" by (cases x)
  show ?case
  proof (cases "fk_idx fk \<in> used")
    case True
    with Cons x show ?thesis by fastforce
  next
    case False
    with Cons.prems x obtain b1 where c: "candidate pick (row j) amz fk b = Inr b1"
      and r: "inner_loop pick row used amz jfks b1 = Inr b'"
      by (auto split: sum.splits)
    from Cons.IH[OF r] candidate_cases[OF c] False x show ?thesis
      by fastforce
  qed
qed

lemma inner_loop_chosen:
  assumes "inner_loop pick row used amz (enumerate 0 fk_data) no_best = Inr b"
  shows "b = no_best \<or> chosen pick row used amz fk_data b"
proof -
  from inner_loop_cases[OF assms] show ?thesis
  proof
    assume "b = no_best" then show ?thesis by simp
  next
    assume "\<exists>(j, fk) \<in> set (enumerate 0 fk_data). fk_idx fk \<notin> used \<and>
            b = take_candidate (score (row j) (amz_identifiers amz) (fk_identifiers fk)) fk \<and>
            size_conflict pick (amz_identifiers amz) (fk_identifiers fk) = Inr False \<and>
            \<not> other_conflict amz fk"
    then obtain j fk where m: "(j, fk) \<in> set (enumerate 0 fk_data)" and
      p: "fk_idx fk \<notin> used"
         "b = take_candidate (score (row j) (amz_identifiers amz) (fk_identifiers fk)) fk"
         "size_conflict pick (amz_identifiers amz) (fk_identifiers fk) = Inr False"
         "\<not> other_conflict amz fk"
      by blast
    from m have "j < length fk_data" "fk = fk_data ! j"
      by (auto simp: in_set_enumerate_eq)
    with p show ?thesis unfolding chosen_def by blast
  qed
qed

lemma matching_length:
  "matching pick cs fkd ias used = Inr bs \<Longrightarrow> length bs = length ias"
  by (induction pick cs fkd ias used arbitrary: bs rule: matching.induct)
     (auto split: sum.splits)

lemma consumed_Cons:
  "consumed (b # bs) = (if best_match b \<noteq> None then insert (best_idx b) (consumed bs) else consumed bs)"
  by (auto simp: consumed_def)

lemma consumed_Nil [simp]: "consumed [] = {}"
  by (simp add: consumed_def)

lemma outer_loop_matching:
  assumes "outer_loop pick cs fkd ias (ups, used) = Inr (ups', used')"
  shows "\<exists>bs. matching pick cs fkd ias used = Inr bs \<and>
           map fields_of ups' =
             map fields_of ups @ map (\<lambda>((i, amz), b). anchor_fields (amz_p amz) b) (zip ias bs) \<and>
           used' = used \<union> consumed bs"
  using assms
proof (induction ias arbitrary: ups used)
  case Nil
  then show ?case by simp
next
  case (Cons x ias)
  obtain i amz where x: "x = (i, amz)" by (cases x)
  from Cons.prems x obtain b where
    b: "inner_loop pick (cs i) used amz (enumerate 0 fkd) no_best = Inr b" and
    r: "outer_loop pick cs fkd ias
          (ups @ [amz_unified (length ups) (amz_p amz) (best_match b)],
           (if best_match b \<noteq> None then insert (best_idx b) used else used)) = Inr (ups', used')"
    by (auto split: sum.splits)
  from Cons.IH[OF r] obtain bs where
    m: "matching pick cs fkd ias (if best_match b \<noteq> None then insert (best_idx b) used else used) = Inr bs"
    and f: "map fields_of ups' =
             map fields_of (ups @ [amz_unified (length ups) (amz_p amz) (best_match b)]) @
             map (\<lambda>((i, amz), b). anchor_fields (amz_p amz) b) (zip ias bs)"
    and u: "used' = (if best_match b \<noteq> None then insert (best_idx b) used else used) \<union> consumed bs"
    by blast
  have af: "fields_of (amz_unified (length ups) (amz_p amz) (best_match b)) = anchor_fields (amz_p amz) b"
    by (simp add: fields_of_def amz_unified_def anchor_fields_def)
  from b m have "matching pick cs fkd (x # ias) used = Inr (b # bs)"
    by (simp add: x)
  moreover from f af have "map fields_of ups' =
             map fields_of ups @ map (\<lambda>((i, amz), b). anchor_fields (amz_p amz) b) (zip (x # ias) (b # bs))"
    by (simp add: x)
  moreover from u have "used' = used \<union> consumed (b # bs)"
    by (auto simp: consumed_Cons)
  ultimately show ?case by blast
qed

lemma matching_outer_loop:
  "matching pick cs fkd ias used = Inr bs \<Longrightarrow> \<exists>st. outer_loop pick cs fkd ias (ups, used) = Inr st"
proof (induction ias arbitrary: ups used bs)
  case Nil
  then show ?case by simp
next
  case (Cons x ias)
  obtain i amz where x: "x = (i, amz)" by (cases x)
  from Cons.prems x obtain b bs' where
    b: "inner_loop pick (cs i) used amz (enumerate 0 fkd) no_best = Inr b" and
    m: "matching pick cs fkd ias (if best_match b \<noteq> None then insert (best_idx b) used else used) = Inr bs'"
    by (auto split: sum.splits)
  from Cons.IH[OF m] b x show ?case by simp
qed

lemma add_unmatched_fields:
  "map fields_of (add_unmatched used jps ups) =
     map fields_of ups @ map (leftover_fields \<circ> snd) (filter (\<lambda>(idx, p). int idx \<notin> used) jps)"
proof (induction jps arbitrary: ups)
  case Nil
  then show ?case by simp
next
  case (Cons x jps)
  obtain idx p where x: "x = (idx, p)" by (cases x)
  have "fields_of (fk_unified n p) = leftover_fields p" for n
    by (simp add: fields_of_def fk_unified_def leftover_fields_def)
  with Cons x show ?case by simp
qed

lemma chosen_matched: "chosen pick row used amz fkd b \<Longrightarrow> best_match b \<noteq> None"
  by (auto simp: chosen_def take_candidate_def)

lemma no_best_unmatched [simp]: "best_match no_best = None"
  by (simp add: no_best_def)

lemma chosen_mono: "chosen pick row used amz fkd b \<Longrightarrow> used' \<subseteq> used \<Longrightarrow> chosen pick row used' amz fkd b"
  unfolding chosen_def by blast

lemma chosen_idx: "chosen pick row used amz fkd b \<Longrightarrow> best_idx b \<notin> used"
  by (auto simp: chosen_def take_candidate_def)

lemma matching_chosen:
  assumes "matching pick cs fkd ias used = Inr bs" "k < length ias" "best_match (bs ! k) \<noteq> None"
  shows "chosen pick (cs (fst (ias ! k))) used (snd (ias ! k)) fkd (bs ! k)"
  using assms
proof (induction ias arbitrary: used bs k)
  case Nil
  then show ?case by simp
next
  case (Cons x ias)
  obtain i amz where x: "x = (i, amz)" by (cases x)
  from Cons.prems(1) x obtain b bs' where
    b: "inner_loop pick (cs i) used amz (enumerate 0 fkd) no_best = Inr b" and
    m: "matching pick cs fkd ias (if best_match b \<noteq> None then insert (best_idx b) used else used) = Inr bs'"
    and bs: "bs = b # bs'"
    by (auto split: sum.splits)
  show ?case
  proof (cases k)
    case 0
    with Cons.prems(3) bs have "best_match b \<noteq> None" by simp
    with inner_loop_chosen[OF b] have "chosen pick (cs i) used amz fkd b" by auto
    with 0 bs x show ?thesis by simp
  next
    case (Suc k')
    with Cons.prems bs have "k' < length ias" "best_match (bs' ! k') \<noteq> None" by simp_all
    from Cons.IH[OF m this]
    have "chosen pick (cs (fst (ias ! k')))
            (if best_match b \<noteq> None then insert (best_idx b) used else used)
            (snd (ias ! k')) fkd (bs' ! k')" .
    then have "chosen pick (cs (fst (ias ! k'))) used (snd (ias ! k')) fkd (bs' ! k')"
      by (rule chosen_mono) auto
    with Suc bs show ?thesis by simp
  qed
qed

lemma matching_distinct:
  assumes "matching pick cs fkd ias used = Inr bs"
  shows "distinct (map best_idx (filter (\<lambda>b. best_match b \<noteq> None) bs)) \<and> consumed bs \<inter> used = {}"
  using assms
proof (induction ias arbitrary: used bs)
  case Nil
  then show ?case by simp
next
  case (Cons x ias)
  obtain i amz where x: "x = (i, amz)" by (cases x)
  from Cons.prems(1) x obtain b bs' where
    b: "inner_loop pick (cs i) used amz (enumerate 0 fkd) no_best = Inr b" and
    m: "matching pick cs fkd ias (if best_match b \<noteq> None then insert (best_idx b) used else used) = Inr bs'"
    and bs: "bs = b # bs'"
    by (auto split: sum.splits)
  note ih = Cons.IH[OF m]
  show ?case
  proof (cases "best_match b = None")
    case True
    with ih bs show ?thesis by (simp add: consumed_Cons)
  next
    case False
    with inner_loop_chosen[OF b] have "chosen pick (cs i) used amz fkd b" by auto
    then have nu: "best_idx b \<notin> used" by (rule chosen_idx)
    from ih False have d: "distinct (map best_idx (filter (\<lambda>b. best_match b \<noteq> None) bs'))"
      and c: "consumed bs' \<inter> insert (best_idx b) used = {}" by simp_all
    from c have "best_idx b \<notin> consumed bs'" by auto
    then have "best_idx b \<notin> set (map best_idx (filter (\<lambda>b. best_match b \<noteq> None) bs'))"
      by (auto simp: consumed_def)
    with d c nu False bs show ?thesis by (auto simp: consumed_Cons)
  qed
qed

lemma fields_of_reassign [simp]: "fields_of (reassign (i, p)) = fields_of p"
  by (simp add: reassign_def fields_of_def)

lemma both_prices_fields: "both_prices p = has_both (fields_of p)"
  by (simp add: both_prices_def has_both_def fields_of_def)

lemma map_fields_reassign: "map fields_of (map reassign (enumerate n xs)) = map fields_of xs"
  by (induction xs arbitrary: n) simp_all

lemma map_id_reassign: "map u_id (map reassign (enumerate n xs)) = map (\<lambda>i. int i + 1) [n..<n + length xs]"
proof (induction xs arbitrary: n)
  case Nil
  then show ?case by simp
next
  case (Cons x xs)
  have "[n..<n + length (x # xs)] = n # [Suc n..<Suc n + length xs]"
    by (simp add: upt_rec)
  with Cons show ?case by (simp add: reassign_def)
qed

lemma filter_both_fields: "map fields_of (filter both_prices xs) = filter has_both (map fields_of xs)"
  by (induction xs) (simp_all add: both_prices_fields)

lemma filter_not_both_fields:
  "map fields_of (filter (\<lambda>p. \<not> both_prices p) xs) = filter (\<lambda>r. \<not> has_both r) (map fields_of xs)"
  by (induction xs) (simp_all add: both_prices_fields)

lemma sort_products_fields:
  "map fields_of (sort_products ups) =
     filter has_both (map fields_of ups) @ filter (\<lambda>r. \<not> has_both r) (map fields_of ups)"
  by (simp add: sort_products_def Let_def map_fields_reassign filter_both_fields
        filter_not_both_fields del: map_map)

lemma sort_products_length [simp]: "length (sort_products ups) = length ups"
  by (simp add: sort_products_def Let_def sum_length_filter_compl)

lemma sort_products_ids:
  "map u_id (sort_products ups) = map (\<lambda>i. int i + 1) [0..<length ups]"
proof -
  have "length (filter both_prices ups @ filter (\<lambda>p. \<not> both_prices p) ups) = length ups"
    by (simp add: sum_length_filter_compl)
  then show ?thesis
    using map_id_reassign[of 0 "filter both_prices ups @ filter (\<lambda>p. \<not> both_prices p) ups"]
    by (simp add: sort_products_def Let_def del: map_map)
qed

lemma sort_products_has_comparison:
  "p \<in> set (sort_products ups) \<Longrightarrow> has_comparison p = has_both (fields_of p)"
  by (auto simp: sort_products_def Let_def reassign_def both_prices_fields fields_of_def
        has_both_def both_prices_def in_set_enumerate_eq)

lemma length_make_fk_data [simp]: "length (make_fk_data ext B) = length B"
  by (simp add: make_fk_data_def)

lemma length_make_amz_data [simp]: "length (make_amz_data ext A) = length A"
  by (simp add: make_amz_data_def)

lemma nth_make_fk_data:
  "j < length B \<Longrightarrow> make_fk_data ext B ! j =
     \<lparr>fk_idx = int j, fk_p = B ! j, fk_identifiers = ext (title (B ! j))\<rparr>"
  by (simp add: make_fk_data_def nth_enumerate_eq)

lemma nth_make_amz_data:
  "i < length A \<Longrightarrow> make_amz_data ext A ! i =
     \<lparr>amz_p = A ! i, amz_identifiers = ext (title (A ! i))\<rparr>"
  by (simp add: make_amz_data_def)

lemma anchors_zip:
  "map (\<lambda>((i, amz), b). anchor_fields (amz_p amz) b) (zip (enumerate n (make_amz_data ext A)) bs) =
   map (\<lambda>(a, b). anchor_fields a b) (zip A bs)"
proof (induction A arbitrary: n bs)
  case Nil
  then show ?case by (simp add: make_amz_data_def)
next
  case (Cons a A)
  then show ?case by (cases bs) (simp_all add: make_amz_data_def)
qed

lemma unified_before_sort_fields:
  assumes "unified_before_sort ext pick cs A B = Inr ups"
  shows "\<exists>bs. matches ext pick cs A B = Inr bs \<and> map fields_of ups = before_sort A B bs"
proof -
  from assms obtain ups0 used where
    o: "outer_loop pick cs (make_fk_data ext B) (enumerate 0 (make_amz_data ext A)) ([], {}) = Inr (ups0, used)"
    and u: "ups = add_unmatched used (enumerate 0 B) ups0"
    by (auto simp: unified_before_sort_def split: sum.splits)
  from outer_loop_matching[OF o] obtain bs where
    m: "matching pick cs (make_fk_data ext B) (enumerate 0 (make_amz_data ext A)) {} = Inr bs"
    and f: "map fields_of ups0 =
             map (\<lambda>((i, amz), b). anchor_fields (amz_p amz) b) (zip (enumerate 0 (make_amz_data ext A)) bs)"
    and c: "used = consumed bs"
    by auto
  from u f c have "map fields_of ups = before_sort A B bs"
    by (simp add: add_unmatched_fields before_sort_def leftover_def anchors_zip)
  with m show ?thesis by (auto simp: matches_def)
qed

lemma matches_unified_before_sort:
  assumes "matches ext pick cs A B = Inr bs"
  shows "\<exists>ups. unified_before_sort ext pick cs A B = Inr ups"
proof -
  from matching_outer_loop[OF assms[unfolded matches_def], of "[]"]
  obtain st where "outer_loop pick cs (make_fk_data ext B) (enumerate 0 (make_amz_data ext A)) ([], {}) = Inr st"
    by blast
  then show ?thesis by (cases st) (simp add: unified_before_sort_def)
qed

lemma matches_length: "matches ext pick cs A B = Inr bs \<Longrightarrow> length bs = length A"
  by (auto simp: matches_def dest: matching_length)

lemma matches_chosen:
  assumes "matches ext pick cs A B = Inr bs" "i < length A" "best_match (bs ! i) \<noteq> None"
  shows "chosen pick (cs i) {} \<lparr>amz_p = A ! i, amz_identifiers = ext (title (A ! i))\<rparr>
           (make_fk_data ext B) (bs ! i)"
proof -
  from assms(2) have "i < length (enumerate 0 (make_amz_data ext A))" by simp
  from matching_chosen[OF assms(1)[unfolded matches_def] this assms(3)] assms(2)
  show ?thesis by (simp add: nth_enumerate_eq nth_make_amz_data)
qed

lemma matches_distinct:
  "matches ext pick cs A B = Inr bs \<Longrightarrow>
     distinct (map best_idx (filter (\<lambda>b. best_match b \<noteq> None) bs))"
  by (auto simp: matches_def dest: matching_distinct)

lemma match_products_with_fields:
  assumes "match_products_with ext pick cs A B = Inr out" "A \<noteq> []" "B \<noteq> []"
  shows "\<exists>bs. matches ext pick cs A B = Inr bs \<and>
           map fields_of out = filter has_both (before_sort A B bs) @
                               filter (\<lambda>r. \<not> has_both r) (before_sort A B bs)"
proof -
  from assms obtain ups where u: "unified_before_sort ext pick cs A B = Inr ups"
    and o: "out = sort_products ups"
    by (auto simp: match_products_with_def split: sum.splits)
  from unified_before_sort_fields[OF u] o show ?thesis
    by (auto simp: sort_products_fields)
qed

section \<open>The rules in terms of sets\<close>

lemma set_inter [simp]: "set (inter a b) = set a \<inter> set b"
  by (auto simp: inter_def)

lemma inter_empty_iff: "inter a b = [] \<longleftrightarrow> set a \<inter> set b = {}"
  by (auto simp: inter_def filter_empty_conv)

lemma set_tagged: "set (tagged p ids) = {t \<in> set ids. startswith p t}"
  by (auto simp: tagged_def)

lemma tagged_empty_iff: "tagged p ids = [] \<longleftrightarrow> {t \<in> set ids. startswith p t} = {}"
  by (auto simp: tagged_def filter_empty_conv)



lemma storage_conflict_iff:
  "storage_conflict a f \<longleftrightarrow>
     {t \<in> set a. startswith ''storage_'' t} \<noteq> {} \<and> {t \<in> set f. startswith ''storage_'' t} \<noteq> {} \<and>
     {t \<in> set a. startswith ''storage_'' t} \<inter> {t \<in> set f. startswith ''storage_'' t} = {}"
  by (simp add: storage_conflict_def Let_def inter_empty_iff tagged_empty_iff set_tagged)

lemma color_conflict_iff:
  "color_conflict a f \<longleftrightarrow>
     {t \<in> set a. startswith ''color_'' t} \<noteq> {} \<and> {t \<in> set f. startswith ''color_'' t} \<noteq> {} \<and>
     {t \<in> set a. startswith ''color_'' t} \<noteq> {t \<in> set f. startswith ''color_'' t}"
  by (simp add: color_conflict_def Let_def tagged_empty_iff set_tagged)



lemma conflict_rejects:
  assumes "other_conflict amz fk"
  shows "candidate pick s amz fk b = Inr b \<or> candidate pick s amz fk b = Inl ValueError"
proof (cases "size_conflict pick (amz_identifiers amz) (fk_identifiers fk)")
  case (Inl e)
  then show ?thesis by (cases e) (simp add: candidate_def Let_def)
next
  case (Inr c)
  with assms show ?thesis by (simp add: candidate_def Let_def)
qed


section \<open>The final ordering and the records\<close>

lemma ids_upt: "map (\<lambda>i. int i + 1) [0..<n] = map int [1..<Suc n]"
  by (induction n) simp_all

lemma partition_order:
  assumes "k < k'" "k' < length (filter P xs @ filter (\<lambda>x. \<not> P x) xs)"
    and "P ((filter P xs @ filter (\<lambda>x. \<not> P x) xs) ! k')"
  shows "P ((filter P xs @ filter (\<lambda>x. \<not> P x) xs) ! k)"
proof -
  have "k' < length (filter P xs)"
  proof (rule ccontr)
    assume "\<not> k' < length (filter P xs)"
    with assms(2,3) have "P (filter (\<lambda>x. \<not> P x) xs ! (k' - length (filter P xs)))"
      and "k' - length (filter P xs) < length (filter (\<lambda>x. \<not> P x) xs)"
      by (simp_all add: nth_append)
    then show False using nth_mem by fastforce
  qed
  with assms(1) have k: "k < length (filter P xs)" by simp
  from nth_mem[OF k] have "P (filter P xs ! k)" by simp
  with k show ?thesis by (simp add: nth_append)
qed

lemma matches_best_match:
  assumes "matches ext pick cs A B = Inr bs" "i < length A"
  shows "best_match (bs ! i) = None \<or> (\<exists>j < length B. best_match (bs ! i) = Some (B ! j))"
proof (cases "best_match (bs ! i) = None")
  case True
  then show ?thesis by simp
next
  case False
  from matches_chosen[OF assms False] obtain j where "j < length B"
    "bs ! i = take_candidate
       (score (cs i j) (ext (title (A ! i))) (fk_identifiers (make_fk_data ext B ! j)))
       (make_fk_data ext B ! j)"
    by (auto simp: chosen_def)
  then show ?thesis by (auto simp: take_candidate_def nth_make_fk_data)
qed

lemma set_leftover: "p \<in> set (leftover bs B) \<Longrightarrow> \<exists>j < length B. p = B ! j"
  by (auto simp: leftover_def in_set_enumerate_eq)

lemma before_sort_elem:
  assumes "matches ext pick cs A B = Inr bs" "r \<in> set (before_sort A B bs)"
  shows "(\<exists>i < length A. r = anchor_fields (A ! i) (bs ! i)) \<or>
         (\<exists>j < length B. r = leftover_fields (B ! j))"
proof -
  from assms(2) consider "r \<in> set (map (\<lambda>(a, b). anchor_fields a b) (zip A bs))"
    | "r \<in> set (map leftover_fields (leftover bs B))"
    by (auto simp: before_sort_def)
  then show ?thesis
  proof cases
    case 1
    then obtain a b where "(a, b) \<in> set (zip A bs)" "r = anchor_fields a b" by auto
    then obtain i where "i < length A" "i < length bs" "a = A ! i" "b = bs ! i"
      by (auto simp: in_set_zip)
    with \<open>r = anchor_fields a b\<close> show ?thesis by blast
  next
    case 2
    then obtain p where "p \<in> set (leftover bs B)" "r = leftover_fields p" by auto
    with set_leftover show ?thesis by blast
  qed
qed

lemma before_sort_anchor:
  assumes "length bs = length A" "i < length A"
  shows "anchor_fields (A ! i) (bs ! i) \<in> set (before_sort A B bs)"
proof -
  from assms have "(A ! i, bs ! i) \<in> set (zip A bs)"
    by (auto simp: in_set_zip)
  then show ?thesis by (force simp: before_sort_def)
qed

lemma match_products_with_set:
  assumes "match_products_with ext pick cs A B = Inr out" "A \<noteq> []" "B \<noteq> []"
  shows "\<exists>bs. matches ext pick cs A B = Inr bs \<and> fields_of ` set out = set (before_sort A B bs)"
proof -
  from match_products_with_fields[OF assms] obtain bs where
    m: "matches ext pick cs A B = Inr bs" and
    f: "map fields_of out = filter has_both (before_sort A B bs) @
                            filter (\<lambda>r. \<not> has_both r) (before_sort A B bs)"
    by blast
  have "set (map fields_of out) = set (before_sort A B bs)"
    unfolding f by auto
  with m show ?thesis by auto
qed

lemma truthy_present: "p \<noteq> Some 0 \<Longrightarrow> truthy p \<longleftrightarrow> p \<noteq> None"
  by (cases p) (simp_all add: truthy_def)

lemma mset_map_reorder:
  "mset (map f zs) = mset ws \<Longrightarrow> \<exists>zs'. mset zs' = mset zs \<and> map f zs' = ws"
proof (induction ws arbitrary: zs)
  case Nil
  then show ?case by simp
next
  case (Cons w ws)
  then have "w \<in># mset (map f zs)" by simp
  then have "w \<in> f ` set zs" by simp
  then obtain z where z: "z \<in> set zs" "f z = w" by auto
  then obtain zs1 zs2 where zs: "zs = zs1 @ z # zs2" by (auto dest: split_list)
  with Cons.prems z have "mset (map f (zs1 @ zs2)) = mset ws" by simp
  from Cons.IH[OF this] obtain zs'' where "mset zs'' = mset (zs1 @ zs2)" "map f zs'' = ws"
    by blast
  with z zs have "mset (z # zs'') = mset zs \<and> map f (z # zs'') = w # ws" by simp
  then show ?case by (rule exI)
qed

lemma nth_leftover:
  assumes "k < length (leftover bs B)"
  shows "\<exists>j < length B. int j \<notin> consumed bs \<and> leftover bs B ! k = B ! j"
proof -
  let ?P = "\<lambda>(idx, p). int idx \<notin> consumed bs"
  let ?xs = "filter ?P (enumerate 0 B)"
  from assms have k: "k < length ?xs" by (simp add: leftover_def)
  then have "?xs ! k \<in> set ?xs" by (rule nth_mem)
  then have mem: "?xs ! k \<in> set (enumerate 0 B)" and P: "?P (?xs ! k)" by auto
  obtain j p where jp: "?xs ! k = (j, p)" by (cases "?xs ! k")
  from mem P jp have "j < length B" "p = B ! j" "int j \<notin> consumed bs"
    by (auto simp: in_set_enumerate_eq)
  moreover from k have "leftover bs B ! k = snd (?xs ! k)" by (simp add: leftover_def)
  ultimately show ?thesis using jp by auto
qed

section \<open>The size rule on concrete tags\<close>

lemma first_of_single [simp]: "first_of pick [x] = x"
  by (simp add: first_of_def)

lemma sizes_dash: "filter (endswith ''inch'') (ids_of_title ''LG 32-inch TV'') = [''model_32inch'']"
  by code_simp

lemma sizes_32: "filter (endswith ''inch'') (ids_of_title ''LG 32 inch TV'') = [''32inch'']"
  by code_simp

lemma sizes_43: "filter (endswith ''inch'') (ids_of_title ''LG 43 inch TV'') = [''43inch'']"
  by code_simp

lemma int_model_32: "py_int ''model_32'' = Inl ValueError"
  by code_simp

lemma int_32: "py_int ''32'' = Inr 32"
  by code_simp

lemma int_43: "py_int ''43'' = Inr 43"
  by code_simp

lemma sizes_33: "filter (endswith ''inch'') (ids_of_title ''LG 33 inch TV'') = [''33inch'']"
  by code_simp

lemma int_33: "py_int ''33'' = Inr 33"
  by code_simp

text \<open>The tolerance of the size rule where each side has one well-formed tag: 32 against
  33 is no conflict, 32 against 43 is one, for every set order.\<close>

lemma size_tolerance:
  "size_conflict pick (ids_of_title ''LG 32 inch TV'') (ids_of_title ''LG 33 inch TV'') = Inr False \<and>
   size_conflict pick (ids_of_title ''LG 32 inch TV'') (ids_of_title ''LG 43 inch TV'') = Inr True"
  by (simp add: size_conflict_def Let_def sizes_32 sizes_33 sizes_43 int_32 int_33 int_43)

section \<open>The claims\<close>

subsection \<open>C9: an empty side gives an empty result\<close>

text \<open>Claim C9. If the A-side sequence is empty or the B-side sequence is empty,
  \<^verbatim>\<open>match_products\<close> returns the empty sequence, not the listings of the other side.\<close>

theorem empty_side_empty_result:
  assumes "amazon_products = [] \<or> flipkart_products = []"
  shows "match_products_with ext pick cosine_scores amazon_products flipkart_products = Inr []"
  using assms by (simp add: match_products_with_def)

theorem empty_side_empty_result_witness:
  "([amz_listing ''LG 32 inch TV'' 15000] = [] \<or> ([] :: listing list) = []) \<and>
   match_products_with ids_of_title pick_first sim_09 [amz_listing ''LG 32 inch TV'' 15000] []
     = Inr []"
proof -
  have h: "[amz_listing ''LG 32 inch TV'' 15000] = [] \<or> ([] :: listing list) = []" by simp
  from empty_side_empty_result[OF h] h show ?thesis by blast
qed

subsection \<open>C1: the records of the result\<close>

text \<open>Claim C1 says that for every pair of input sequences the result holds exactly one
  record per A-listing. With one side empty the guard of line 599 returns the empty
  list, so an A-listing facing an empty B side has no record.\<close>

theorem empty_side_drops_anchor:
  "[amz_listing ''LG 32 inch TV'' 15000] \<noteq> [] \<and>
   match_products_with ids_of_title pick_first sim_09 [amz_listing ''LG 32 inch TV'' 15000] []
     = Inr []"
  by (simp add: match_products_with_def)

text \<open>Claim C1, amended. For non-empty A and B, whenever \<^verbatim>\<open>match_products\<close> returns:
  there is one match per A-listing (\<open>bs\<close>, possibly no match); a match names a
  B-listing by its index and holds that listing; no two anchors are matched to the same
  index; and the records of the result, their \<^verbatim>\<open>id\<close> and \<^verbatim>\<open>has_comparison\<close> apart, are
  as a multiset exactly one record per A-listing (with the price and link of its match)
  plus one record per B-listing that no anchor consumed.\<close>

theorem result_is_anchors_plus_leftover:
  assumes "amazon_products \<noteq> []" "flipkart_products \<noteq> []"
    and "match_products_with ext pick cosine_scores amazon_products flipkart_products = Inr out"
  shows "\<exists>bs. matches ext pick cosine_scores amazon_products flipkart_products = Inr bs \<and>
           length bs = length amazon_products \<and>
           (\<forall>i < length amazon_products. best_match (bs ! i) \<noteq> None \<longrightarrow>
              (\<exists>j < length flipkart_products.
                 best_idx (bs ! i) = int j \<and> best_match (bs ! i) = Some (flipkart_products ! j))) \<and>
           distinct (map best_idx (filter (\<lambda>b. best_match b \<noteq> None) bs)) \<and>
           mset (map fields_of out) =
             mset (map (\<lambda>(a, b). anchor_fields a b) (zip amazon_products bs)) +
             mset (map leftover_fields (leftover bs flipkart_products)) \<and>
           length out = length amazon_products + length (leftover bs flipkart_products)"
proof -
  from match_products_with_fields[OF assms(3,1,2)] obtain bs where
    m: "matches ext pick cosine_scores amazon_products flipkart_products = Inr bs" and
    f: "map fields_of out =
          filter has_both (before_sort amazon_products flipkart_products bs) @
          filter (\<lambda>r. \<not> has_both r) (before_sort amazon_products flipkart_products bs)"
    by blast
  have len: "length bs = length amazon_products" by (rule matches_length[OF m])
  have ms: "mset (map fields_of out) = mset (before_sort amazon_products flipkart_products bs)"
    unfolding f by simp
  then have "size (mset (map fields_of out)) =
             size (mset (before_sort amazon_products flipkart_products bs))"
    by simp
  then have lo: "length out = length amazon_products + length (leftover bs flipkart_products)"
    by (simp add: before_sort_def len)
  have sel: "\<exists>j < length flipkart_products.
               best_idx (bs ! i) = int j \<and> best_match (bs ! i) = Some (flipkart_products ! j)"
    if "i < length amazon_products" "best_match (bs ! i) \<noteq> None" for i
  proof -
    from matches_chosen[OF m that] obtain j where "j < length flipkart_products"
      "bs ! i = take_candidate
         (score (cosine_scores i j) (ext (title (amazon_products ! i)))
            (fk_identifiers (make_fk_data ext flipkart_products ! j)))
         (make_fk_data ext flipkart_products ! j)"
      by (auto simp: chosen_def)
    then show ?thesis by (auto simp: take_candidate_def nth_make_fk_data)
  qed
  from m len sel matches_distinct[OF m] ms lo show ?thesis
    by (auto simp: before_sort_def)
qed

lemma demo_run:
  "match_products_with ids_of_title pick_first sim_09 demo_amazon demo_flipkart = Inr demo_result"
  by code_simp

theorem result_is_anchors_plus_leftover_witness:
  "demo_amazon \<noteq> [] \<and> demo_flipkart \<noteq> [] \<and>
   match_products_with ids_of_title pick_first sim_09 demo_amazon demo_flipkart = Inr demo_result \<and>
   (\<exists>bs. matches ids_of_title pick_first sim_09 demo_amazon demo_flipkart = Inr bs \<and>
      length bs = length demo_amazon \<and>
      (\<forall>i < length demo_amazon. best_match (bs ! i) \<noteq> None \<longrightarrow>
         (\<exists>j < length demo_flipkart.
            best_idx (bs ! i) = int j \<and> best_match (bs ! i) = Some (demo_flipkart ! j))) \<and>
      distinct (map best_idx (filter (\<lambda>b. best_match b \<noteq> None) bs)) \<and>
      mset (map fields_of demo_result) =
        mset (map (\<lambda>(a, b). anchor_fields a b) (zip demo_amazon bs)) +
        mset (map leftover_fields (leftover bs demo_flipkart)) \<and>
      length demo_result = length demo_amazon + length (leftover bs demo_flipkart))"
proof -
  have a: "demo_amazon \<noteq> []" by (simp add: demo_amazon_def)
  have b: "demo_flipkart \<noteq> []" by (simp add: demo_flipkart_def)
  from result_is_anchors_plus_leftover[OF a b demo_run] a b demo_run show ?thesis by blast
qed

subsection \<open>C3: the composite score\<close>


subsection \<open>C2: the confidence gates\<close>





subsection \<open>C4: the storage rule\<close>

text \<open>Claim C4. If the identifier sets of an A-listing and a B-listing both hold
  \<^verbatim>\<open>storage_\<close> tags and share none of them, the pair is never matched: in the matches of
  any run that returns, the anchor is not matched to that B-listing, and the loop body
  leaves the running best unchanged for this pair (or raises in the size rule), whatever
  the similarity and the score. Only tags that start with \<^verbatim>\<open>storage_\<close> enter the
  hypothesis, so \<^verbatim>\<open>ram_\<close> tags play no part.\<close>

theorem storage_conflict_never_matched:
  assumes "i < length amazon_products" "j < length flipkart_products"
    and "{t \<in> set (ext (title (amazon_products ! i))). startswith ''storage_'' t} \<noteq> {}"
    and "{t \<in> set (ext (title (flipkart_products ! j))). startswith ''storage_'' t} \<noteq> {}"
    and "{t \<in> set (ext (title (amazon_products ! i))). startswith ''storage_'' t} \<inter>
         {t \<in> set (ext (title (flipkart_products ! j))). startswith ''storage_'' t} = {}"
    and "matches ext pick cosine_scores amazon_products flipkart_products = Inr bs"
  shows "(best_match (bs ! i) = None \<or> best_idx (bs ! i) \<noteq> int j) \<and>
         (\<forall>s b. candidate pick s (make_amz_data ext amazon_products ! i)
                   (make_fk_data ext flipkart_products ! j) b \<in> {Inr b, Inl ValueError})"
proof -
  let ?amz = "make_amz_data ext amazon_products ! i"
  let ?fk = "make_fk_data ext flipkart_products ! j"
  have sc: "storage_conflict (ext (title (amazon_products ! i))) (ext (title (flipkart_products ! j)))"
    using assms(3,4,5) by (simp add: storage_conflict_iff)
  then have oc: "other_conflict ?amz ?fk"
    using assms(1,2) by (simp add: other_conflict_def Let_def nth_make_amz_data nth_make_fk_data)
  have 1: "best_match (bs ! i) = None \<or> best_idx (bs ! i) \<noteq> int j"
  proof (rule ccontr)
    assume "\<not> (best_match (bs ! i) = None \<or> best_idx (bs ! i) \<noteq> int j)"
    then have m: "best_match (bs ! i) \<noteq> None" and idx: "best_idx (bs ! i) = int j" by auto
    from matches_chosen[OF assms(6,1) m] obtain j' where j': "j' < length flipkart_products"
      and b: "bs ! i = take_candidate
         (score (cosine_scores i j') (ext (title (amazon_products ! i)))
            (fk_identifiers (make_fk_data ext flipkart_products ! j')))
         (make_fk_data ext flipkart_products ! j')"
      and nc: "\<not> other_conflict \<lparr>amz_p = amazon_products ! i,
                  amz_identifiers = ext (title (amazon_products ! i))\<rparr>
                (make_fk_data ext flipkart_products ! j')"
      by (auto simp: chosen_def)
    from b j' idx have "j' = j" by (simp add: take_candidate_def nth_make_fk_data)
    with nc oc assms(1) show False by (simp add: nth_make_amz_data)
  qed
  from conflict_rejects[OF oc] have 2: "\<forall>s b. candidate pick s ?amz ?fk b \<in> {Inr b, Inl ValueError}"
    by auto
  from 1 2 show ?thesis by blast
qed

lemma s21_run: "matches ids_of_title pick_first sim_09 s21_128 s21_256 = Inr [no_best]"
  by code_simp

theorem storage_conflict_never_matched_witness:
  "(0::nat) < length s21_128 \<and> (0::nat) < length s21_256 \<and>
   {t \<in> set (ids_of_title (title (s21_128 ! 0))). startswith ''storage_'' t} \<noteq> {} \<and>
   {t \<in> set (ids_of_title (title (s21_256 ! 0))). startswith ''storage_'' t} \<noteq> {} \<and>
   {t \<in> set (ids_of_title (title (s21_128 ! 0))). startswith ''storage_'' t} \<inter>
   {t \<in> set (ids_of_title (title (s21_256 ! 0))). startswith ''storage_'' t} = {} \<and>
   matches ids_of_title pick_first sim_09 s21_128 s21_256 = Inr [no_best] \<and>
   (best_match ([no_best] ! 0) = None \<or> best_idx ([no_best] ! 0) \<noteq> int 0)"
proof -
  have a: "(0::nat) < length s21_128" by (simp add: s21_128_def)
  have b: "(0::nat) < length s21_256" by (simp add: s21_256_def)
  have ta: "{t \<in> set (ids_of_title (title (s21_128 ! 0))). startswith ''storage_'' t} = {''storage_128gb''}"
    by (auto simp: s21_128_def amz_listing_def ids_of_title_def startswith_def)
  have tb: "{t \<in> set (ids_of_title (title (s21_256 ! 0))). startswith ''storage_'' t} = {''storage_256gb''}"
    by (auto simp: s21_256_def fk_listing_def ids_of_title_def startswith_def)
  have c: "{t \<in> set (ids_of_title (title (s21_128 ! 0))). startswith ''storage_'' t} \<noteq> {}"
    unfolding ta by simp
  have d: "{t \<in> set (ids_of_title (title (s21_256 ! 0))). startswith ''storage_'' t} \<noteq> {}"
    unfolding tb by simp
  have e: "{t \<in> set (ids_of_title (title (s21_128 ! 0))). startswith ''storage_'' t} \<inter>
           {t \<in> set (ids_of_title (title (s21_256 ! 0))). startswith ''storage_'' t} = {}"
    unfolding ta tb by simp
  from storage_conflict_never_matched[OF a b c d e s21_run] a b c d e s21_run
  show ?thesis by blast
qed

subsection \<open>C5: the colour rule\<close>

text \<open>Claim C5 says that the colour rule rejects exactly when both sides have \<^verbatim>\<open>color_\<close>
  tags and share none. Line 702 compares the two sets with \<^verbatim>\<open>!=\<close>: a black and white
  item conflicts with a black one although both hold \<^verbatim>\<open>color_black\<close>.\<close>

theorem color_conflict_with_shared_color:
  "color_conflict (ids_of_title ''USB Cable Black White'') (ids_of_title ''USB Cable Black'') \<and>
   ''color_black'' \<in> set (tagged ''color_'' (ids_of_title ''USB Cable Black White'')) \<and>
   ''color_black'' \<in> set (tagged ''color_'' (ids_of_title ''USB Cable Black''))"
  by code_simp

text \<open>Claim C5, amended. The colour rule rejects a pair exactly when both identifier sets
  hold at least one \<^verbatim>\<open>color_\<close> tag and the two sets of \<^verbatim>\<open>color_\<close> tags are not equal;
  a pair it rejects leaves the running best unchanged (or the size rule raises).\<close>

theorem color_conflict_is_inequality:
  "(color_conflict a f \<longleftrightarrow>
      {t \<in> set a. startswith ''color_'' t} \<noteq> {} \<and> {t \<in> set f. startswith ''color_'' t} \<noteq> {} \<and>
      {t \<in> set a. startswith ''color_'' t} \<noteq> {t \<in> set f. startswith ''color_'' t}) \<and>
   (color_conflict (amz_identifiers amz) (fk_identifiers fk) \<longrightarrow>
      candidate pick s amz fk b \<in> {Inr b, Inl ValueError})"
proof -
  have "candidate pick s amz fk b \<in> {Inr b, Inl ValueError}"
    if "color_conflict (amz_identifiers amz) (fk_identifiers fk)"
  proof -
    from that have "other_conflict amz fk" by (simp add: other_conflict_def Let_def)
    from conflict_rejects[OF this] show ?thesis by auto
  qed
  then show ?thesis by (simp add: color_conflict_iff)
qed

theorem color_conflict_is_inequality_witness:
  "color_conflict (amz_identifiers
       \<lparr>amz_p = amz_listing ''USB Cable Black White'' 300,
        amz_identifiers = ids_of_title ''USB Cable Black White''\<rparr>)
     (fk_identifiers
       \<lparr>fk_idx = 0, fk_p = fk_listing ''USB Cable Black'' 280,
        fk_identifiers = ids_of_title ''USB Cable Black''\<rparr>) \<and>
   candidate pick_first 0.9
     \<lparr>amz_p = amz_listing ''USB Cable Black White'' 300,
      amz_identifiers = ids_of_title ''USB Cable Black White''\<rparr>
     \<lparr>fk_idx = 0, fk_p = fk_listing ''USB Cable Black'' 280,
      fk_identifiers = ids_of_title ''USB Cable Black''\<rparr> no_best
     \<in> {Inr no_best, Inl ValueError}"
proof -
  have c: "color_conflict (amz_identifiers
       \<lparr>amz_p = amz_listing ''USB Cable Black White'' 300,
        amz_identifiers = ids_of_title ''USB Cable Black White''\<rparr>)
     (fk_identifiers
       \<lparr>fk_idx = 0, fk_p = fk_listing ''USB Cable Black'' 280,
        fk_identifiers = ids_of_title ''USB Cable Black''\<rparr>)"
    by code_simp
  with color_conflict_is_inequality[where a = "[]" and f = "[]" and pick = pick_first
      and s = "0.9" and b = no_best and
      amz = "\<lparr>amz_p = amz_listing ''USB Cable Black White'' 300,
        amz_identifiers = ids_of_title ''USB Cable Black White''\<rparr>" and
      fk = "\<lparr>fk_idx = 0, fk_p = fk_listing ''USB Cable Black'' 280,
        fk_identifiers = ids_of_title ''USB Cable Black''\<rparr>"]
  show ?thesis by blast
qed

subsection \<open>C6: the size rule\<close>

text \<open>Claim C6 says that a pair whose identifier sets both hold an inch tag is
  size-conflicted exactly when the two numeric inch values differ by more than 1. Line
  673 selects every tag that ends with \<^verbatim>\<open>inch\<close>, which includes the \<^verbatim>\<open>model_\<close> tag of a
  token such as \<^verbatim>\<open>32-inch\<close> or \<^verbatim>\<open>32inch\<close>, and lines 677-678 apply \<^verbatim>\<open>int\<close> to the first
  element of the set. For the titles \<^verbatim>\<open>"LG 32-inch TV"\<close> and \<^verbatim>\<open>"LG 32 inch TV"\<close> the rule
  does not answer: \<^verbatim>\<open>int("model_32")\<close> raises, for every set order and every similarity,
  and \<^verbatim>\<open>match_products\<close> raises with it. (\<open>size_tolerance\<close> above is the rule where both
  sets hold one well-formed tag.)\<close>

theorem size_rule_raises_on_model_tag:
  "size_conflict pick (ids_of_title ''LG 32-inch TV'') (ids_of_title ''LG 32 inch TV'')
     = Inl ValueError \<and>
   match_products_with ids_of_title pick cosine_scores
     [amz_listing ''LG 32-inch TV'' 15000] [fk_listing ''LG 32 inch TV'' 14500] = Inl ValueError"
proof -
  have a: "size_conflict pick (ids_of_title ''LG 32-inch TV'') (ids_of_title ''LG 32 inch TV'')
             = Inl ValueError"
    by (simp add: size_conflict_def Let_def sizes_dash sizes_32 int_model_32)
  have "match_products_with ids_of_title pick cosine_scores
     [amz_listing ''LG 32-inch TV'' 15000] [fk_listing ''LG 32 inch TV'' 14500] = Inl ValueError"
    by (simp add: match_products_with_def unified_before_sort_def make_fk_data_def
        make_amz_data_def enumerate_eq_zip candidate_def Let_def amz_listing_def
        fk_listing_def a)
  with a show ?thesis by blast
qed

subsection \<open>C8: determinism\<close>

text \<open>Claim C8 says that two invocations with the same listings and the same similarity
  matrix give the same result. The title \<^verbatim>\<open>"LG TV 32inch"\<close> has the two tags \<^verbatim>\<open>32inch\<close> and
  \<^verbatim>\<open>model_32inch\<close> that end with \<^verbatim>\<open>inch\<close>, and line 677 takes the first element of
  that set in iteration order, which Python does not fix (string hashes are salted per
  process): where the iteration yields \<^verbatim>\<open>32inch\<close> first the call returns one matched
  record, where it yields \<^verbatim>\<open>model_32inch\<close> first the call raises \<^verbatim>\<open>ValueError\<close>.\<close>

theorem result_depends_on_set_order:
  "match_products_with ids_of_title pick_first sim_09
     [amz_listing ''LG TV 32inch'' 15000] [fk_listing ''LG 32 inch TV'' 14500] =
   Inr [\<lparr>u_id = 1, u_title = ''LG TV 32inch'', u_image = Some ''a.jpg'', u_rating = Some 4.5,
         u_is_prime = True, amazon_price = Some 15000, amazon_link = Some ''amazon.in/dp/1'',
         flipkart_price = Some 14500, flipkart_link = Some ''flipkart.com/p/1'',
         has_comparison = True\<rparr>] \<and>
   match_products_with ids_of_title pick_last sim_09
     [amz_listing ''LG TV 32inch'' 15000] [fk_listing ''LG 32 inch TV'' 14500] =
   Inl ValueError"
  by code_simp

subsection \<open>C7: the final ordering\<close>

text \<open>Claim C7. Whenever \<^verbatim>\<open>match_products\<close> returns, its result is the list
  \<^verbatim>\<open>unified_products\<close> of line 828 (\<open>ups\<close>, empty when a side is empty) with the records
  that have both prices first, then the others, each group in its order in \<open>ups\<close>; no
  record with both prices comes after one without; the ids are 1, 2, 3, ... in the order
  of the result; \<^verbatim>\<open>has_comparison\<close> says whether both prices are there. A price is there
  when it is true in Python (neither \<^verbatim>\<open>None\<close> nor 0); when no input listing has the
  price 0, that is: present.\<close>

theorem final_order:
  assumes "match_products_with ext pick cosine_scores amazon_products flipkart_products = Inr out"
  shows "\<exists>ups.
           (if amazon_products = [] \<or> flipkart_products = [] then ups = []
            else unified_before_sort ext pick cosine_scores amazon_products flipkart_products
                   = Inr ups) \<and>
           map fields_of out =
             filter has_both (map fields_of ups) @ filter (\<lambda>r. \<not> has_both r) (map fields_of ups) \<and>
           (\<forall>k k'. k < k' \<and> k' < length out \<and> has_both (fields_of (out ! k')) \<longrightarrow>
                    has_both (fields_of (out ! k))) \<and>
           map u_id out = map int [1..<Suc (length out)] \<and>
           (\<forall>p \<in> set out. has_comparison p = has_both (fields_of p)) \<and>
           ((\<forall>l \<in> set amazon_products \<union> set flipkart_products. price l \<noteq> Some 0) \<longrightarrow>
            (\<forall>p \<in> set out. has_both (fields_of p) \<longleftrightarrow>
                             amazon_price p \<noteq> None \<and> flipkart_price p \<noteq> None))"
proof -
  let ?A = amazon_products and ?B = flipkart_products
  obtain ups where
    u: "if ?A = [] \<or> ?B = [] then ups = []
        else unified_before_sort ext pick cosine_scores ?A ?B = Inr ups"
    and o: "out = sort_products ups"
    using assms
    by (cases "?A = [] \<or> ?B = []")
       (auto simp: match_products_with_def sort_products_def split: sum.splits)
  have f: "map fields_of out =
             filter has_both (map fields_of ups) @ filter (\<lambda>r. \<not> has_both r) (map fields_of ups)"
    unfolding o by (rule sort_products_fields)
  have ord: "has_both (fields_of (out ! k))"
    if "k < k'" "k' < length out" "has_both (fields_of (out ! k'))" for k k'
  proof -
    from that have k: "k < length out" by simp
    have l: "length out = length (filter has_both (map fields_of ups) @
                                  filter (\<lambda>r. \<not> has_both r) (map fields_of ups))"
      using f by (metis length_map)
    from that(2,3) k have "has_both (map fields_of out ! k')" by simp
    with partition_order[of k k' has_both "map fields_of ups"] that(1,2) l f
    have "has_both (map fields_of out ! k)" by simp
    with k show ?thesis by simp
  qed
  have ids: "map u_id out = map int [1..<Suc (length out)]"
    unfolding o by (simp add: sort_products_ids ids_upt)
  have hc: "\<forall>p \<in> set out. has_comparison p = has_both (fields_of p)"
    unfolding o by (auto dest: sort_products_has_comparison)
  have pr: "has_both (fields_of p) \<longleftrightarrow> amazon_price p \<noteq> None \<and> flipkart_price p \<noteq> None"
    if nz: "\<forall>l \<in> set ?A \<union> set ?B. price l \<noteq> Some 0" and p: "p \<in> set out" for p
  proof -
    from p assms have ne: "?A \<noteq> []" "?B \<noteq> []"
      by (auto simp: match_products_with_def)
    from match_products_with_set[OF assms ne] obtain bs where
      m: "matches ext pick cosine_scores ?A ?B = Inr bs" and
      s: "fields_of ` set out = set (before_sort ?A ?B bs)"
      by blast
    from p s have "fields_of p \<in> set (before_sort ?A ?B bs)" by auto
    from before_sort_elem[OF m this]
    have "f_amazon_price (fields_of p) \<noteq> Some 0 \<and> f_flipkart_price (fields_of p) \<noteq> Some 0"
    proof
      assume "\<exists>i < length ?A. fields_of p = anchor_fields (?A ! i) (bs ! i)"
      then obtain i where i: "i < length ?A" and e: "fields_of p = anchor_fields (?A ! i) (bs ! i)"
        by blast
      from nz i have "price (?A ! i) \<noteq> Some 0" by simp
      moreover from matches_best_match[OF m i] nz
      have "(case best_match (bs ! i) of Some m \<Rightarrow> price m | None \<Rightarrow> None) \<noteq> Some 0"
        by (auto split: option.splits)
      ultimately show ?thesis by (simp add: e anchor_fields_def)
    next
      assume "\<exists>j < length ?B. fields_of p = leftover_fields (?B ! j)"
      with nz show ?thesis by (auto simp: leftover_fields_def)
    qed
    then show ?thesis
      by (simp add: has_both_def truthy_present) (simp add: fields_of_def)
  qed
  from u f ord ids hc pr show ?thesis by blast
qed

theorem final_order_witness:
  "match_products_with ids_of_title pick_first sim_09 demo_amazon demo_flipkart = Inr demo_result \<and>
   map u_id demo_result = map int [1..<Suc (length demo_result)] \<and>
   (\<exists>ups.
      (if demo_amazon = [] \<or> demo_flipkart = [] then ups = []
       else unified_before_sort ids_of_title pick_first sim_09 demo_amazon demo_flipkart = Inr ups) \<and>
      map fields_of demo_result =
        filter has_both (map fields_of ups) @ filter (\<lambda>r. \<not> has_both r) (map fields_of ups))"
proof -
  from final_order[OF demo_run] demo_run show ?thesis by blast
qed

subsection \<open>C10: where the fields of a record come from\<close>

text \<open>Claim C10. With an empty side the result has no record. Otherwise the records of the
  result are, as a multiset, the records \<open>anchors\<close>, one per A-listing in input order,
  together with the records \<open>lefts\<close>, one per B-listing that no anchor consumed, in input
  order. The record of the \<open>i\<close>-th A-listing has the title, image, rating, \<^verbatim>\<open>is_prime\<close>,
  price and link of that A-listing, also when the anchor is matched; its
  \<^verbatim>\<open>flipkart_price\<close> and \<^verbatim>\<open>flipkart_link\<close> are those of its match, a B-listing, or absent
  without a match. The record of a leftover B-listing has the title, image, rating, price
  and link of that B-listing, \<^verbatim>\<open>is_prime\<close> false, and \<^verbatim>\<open>amazon_price\<close> and \<^verbatim>\<open>amazon_link\<close>
  absent.\<close>

theorem record_sources:
  assumes "match_products_with ext pick cosine_scores amazon_products flipkart_products = Inr out"
  shows "if amazon_products = [] \<or> flipkart_products = [] then out = []
         else
          (\<exists>bs anchors lefts.
             matches ext pick cosine_scores amazon_products flipkart_products = Inr bs \<and>
             mset out = mset anchors + mset lefts \<and>
             length anchors = length amazon_products \<and>
             length lefts = length (leftover bs flipkart_products) \<and>
             (\<forall>i < length amazon_products.
                u_title (anchors ! i) = title (amazon_products ! i) \<and>
                u_image (anchors ! i) = image (amazon_products ! i) \<and>
                u_rating (anchors ! i) = rating (amazon_products ! i) \<and>
                u_is_prime (anchors ! i) = is_prime (amazon_products ! i) \<and>
                amazon_price (anchors ! i) = price (amazon_products ! i) \<and>
                amazon_link (anchors ! i) = link (amazon_products ! i) \<and>
                flipkart_price (anchors ! i) =
                  (case best_match (bs ! i) of Some m \<Rightarrow> price m | None \<Rightarrow> None) \<and>
                flipkart_link (anchors ! i) =
                  (case best_match (bs ! i) of Some m \<Rightarrow> link m | None \<Rightarrow> None) \<and>
                (best_match (bs ! i) = None \<or>
                 (\<exists>j < length flipkart_products.
                    best_match (bs ! i) = Some (flipkart_products ! j)))) \<and>
             (\<forall>k < length (leftover bs flipkart_products).
                u_title (lefts ! k) = title (leftover bs flipkart_products ! k) \<and>
                u_image (lefts ! k) = image (leftover bs flipkart_products ! k) \<and>
                u_rating (lefts ! k) = rating (leftover bs flipkart_products ! k) \<and>
                \<not> u_is_prime (lefts ! k) \<and>
                amazon_price (lefts ! k) = None \<and>
                amazon_link (lefts ! k) = None \<and>
                flipkart_price (lefts ! k) = price (leftover bs flipkart_products ! k) \<and>
                flipkart_link (lefts ! k) = link (leftover bs flipkart_products ! k) \<and>
                (\<exists>j < length flipkart_products.
                   int j \<notin> consumed bs \<and>
                   leftover bs flipkart_products ! k = flipkart_products ! j)))"
proof (cases "amazon_products = [] \<or> flipkart_products = []")
  case True
  with assms have "out = []" by (auto simp: match_products_with_def)
  with True show ?thesis by simp
next
  case False
  let ?A = amazon_products and ?B = flipkart_products
  from False have ne: "?A \<noteq> []" "?B \<noteq> []" by simp_all
  from match_products_with_fields[OF assms ne] obtain bs where
    m: "matches ext pick cosine_scores ?A ?B = Inr bs" and
    f: "map fields_of out = filter has_both (before_sort ?A ?B bs) @
                            filter (\<lambda>r. \<not> has_both r) (before_sort ?A ?B bs)"
    by blast
  have len: "length bs = length ?A" by (rule matches_length[OF m])
  have "mset (map fields_of out) = mset (before_sort ?A ?B bs)"
    unfolding f by simp
  from mset_map_reorder[OF this] obtain out' where
    p: "mset out' = mset out" and o: "map fields_of out' = before_sort ?A ?B bs"
    by blast
  define anchors where "anchors = take (length ?A) out'"
  define lefts where "lefts = drop (length ?A) out'"
  from o have "length (map fields_of out') = length (before_sort ?A ?B bs)" by simp
  then have lo: "length out' = length ?A + length (leftover bs ?B)"
    by (simp add: before_sort_def len)
  have "mset out = mset (anchors @ lefts)"
    unfolding anchors_def lefts_def using p by simp
  then have 1: "mset out = mset anchors + mset lefts" by simp
  have 2: "length anchors = length ?A" unfolding anchors_def using lo by simp
  have 3: "length lefts = length (leftover bs ?B)" unfolding lefts_def using lo by simp
  have fa: "fields_of (anchors ! i) = anchor_fields (?A ! i) (bs ! i)" if i: "i < length ?A" for i
  proof -
    from i lo have "fields_of (anchors ! i) = map fields_of out' ! i"
      by (simp add: anchors_def)
    also have "\<dots> = anchor_fields (?A ! i) (bs ! i)"
      unfolding o before_sort_def using i len by (simp add: nth_append)
    finally show ?thesis .
  qed
  have fl: "fields_of (lefts ! k) = leftover_fields (leftover bs ?B ! k)"
    if k: "k < length (leftover bs ?B)" for k
  proof -
    from k lo have "fields_of (lefts ! k) = map fields_of out' ! (length ?A + k)"
      by (simp add: lefts_def)
    also have "\<dots> = leftover_fields (leftover bs ?B ! k)"
      unfolding o before_sort_def using k len by (simp add: nth_append)
    finally show ?thesis .
  qed
  have 4: "\<forall>i < length ?A.
           u_title (anchors ! i) = title (?A ! i) \<and>
           u_image (anchors ! i) = image (?A ! i) \<and>
           u_rating (anchors ! i) = rating (?A ! i) \<and>
           u_is_prime (anchors ! i) = is_prime (?A ! i) \<and>
           amazon_price (anchors ! i) = price (?A ! i) \<and>
           amazon_link (anchors ! i) = link (?A ! i) \<and>
           flipkart_price (anchors ! i) =
             (case best_match (bs ! i) of Some m \<Rightarrow> price m | None \<Rightarrow> None) \<and>
           flipkart_link (anchors ! i) =
             (case best_match (bs ! i) of Some m \<Rightarrow> link m | None \<Rightarrow> None) \<and>
           (best_match (bs ! i) = None \<or>
            (\<exists>j < length ?B. best_match (bs ! i) = Some (?B ! j)))"
  proof (intro allI impI)
    fix i assume i: "i < length ?A"
    from fa[OF i] have
      "u_title (anchors ! i) = title (?A ! i)" "u_image (anchors ! i) = image (?A ! i)"
      "u_rating (anchors ! i) = rating (?A ! i)" "u_is_prime (anchors ! i) = is_prime (?A ! i)"
      "amazon_price (anchors ! i) = price (?A ! i)" "amazon_link (anchors ! i) = link (?A ! i)"
      "flipkart_price (anchors ! i) =
             (case best_match (bs ! i) of Some m \<Rightarrow> price m | None \<Rightarrow> None)"
      "flipkart_link (anchors ! i) =
             (case best_match (bs ! i) of Some m \<Rightarrow> link m | None \<Rightarrow> None)"
      by (simp_all add: fields_of_def anchor_fields_def)
    with matches_best_match[OF m i]
    show "u_title (anchors ! i) = title (?A ! i) \<and>
           u_image (anchors ! i) = image (?A ! i) \<and>
           u_rating (anchors ! i) = rating (?A ! i) \<and>
           u_is_prime (anchors ! i) = is_prime (?A ! i) \<and>
           amazon_price (anchors ! i) = price (?A ! i) \<and>
           amazon_link (anchors ! i) = link (?A ! i) \<and>
           flipkart_price (anchors ! i) =
             (case best_match (bs ! i) of Some m \<Rightarrow> price m | None \<Rightarrow> None) \<and>
           flipkart_link (anchors ! i) =
             (case best_match (bs ! i) of Some m \<Rightarrow> link m | None \<Rightarrow> None) \<and>
           (best_match (bs ! i) = None \<or>
            (\<exists>j < length ?B. best_match (bs ! i) = Some (?B ! j)))"
      by - (intro conjI; assumption)
  qed
  have 5: "\<forall>k < length (leftover bs ?B).
           u_title (lefts ! k) = title (leftover bs ?B ! k) \<and>
           u_image (lefts ! k) = image (leftover bs ?B ! k) \<and>
           u_rating (lefts ! k) = rating (leftover bs ?B ! k) \<and>
           \<not> u_is_prime (lefts ! k) \<and>
           amazon_price (lefts ! k) = None \<and>
           amazon_link (lefts ! k) = None \<and>
           flipkart_price (lefts ! k) = price (leftover bs ?B ! k) \<and>
           flipkart_link (lefts ! k) = link (leftover bs ?B ! k) \<and>
           (\<exists>j < length ?B. int j \<notin> consumed bs \<and> leftover bs ?B ! k = ?B ! j)"
  proof (intro allI impI)
    fix k assume k: "k < length (leftover bs ?B)"
    from fl[OF k] have
      "u_title (lefts ! k) = title (leftover bs ?B ! k)"
      "u_image (lefts ! k) = image (leftover bs ?B ! k)"
      "u_rating (lefts ! k) = rating (leftover bs ?B ! k)"
      "\<not> u_is_prime (lefts ! k)"
      "amazon_price (lefts ! k) = None"
      "amazon_link (lefts ! k) = None"
      "flipkart_price (lefts ! k) = price (leftover bs ?B ! k)"
      "flipkart_link (lefts ! k) = link (leftover bs ?B ! k)"
      by (simp_all add: fields_of_def leftover_fields_def)
    with nth_leftover[OF k]
    show "u_title (lefts ! k) = title (leftover bs ?B ! k) \<and>
           u_image (lefts ! k) = image (leftover bs ?B ! k) \<and>
           u_rating (lefts ! k) = rating (leftover bs ?B ! k) \<and>
           \<not> u_is_prime (lefts ! k) \<and>
           amazon_price (lefts ! k) = None \<and>
           amazon_link (lefts ! k) = None \<and>
           flipkart_price (lefts ! k) = price (leftover bs ?B ! k) \<and>
           flipkart_link (lefts ! k) = link (leftover bs ?B ! k) \<and>
           (\<exists>j < length ?B. int j \<notin> consumed bs \<and> leftover bs ?B ! k = ?B ! j)"
      by - (intro conjI; assumption)
  qed
  show ?thesis
    unfolding if_not_P[OF False]
    apply (rule exI[of _ bs], rule exI[of _ anchors], rule exI[of _ lefts])
    using m 1 2 3 4 5 by - (intro conjI; assumption)
qed

text \<open>A run with a leftover: the anchor \<^verbatim>\<open>"LG 32 inch TV"\<close> takes the second B-listing, and
  the first, \<^verbatim>\<open>"LG 43 inch TV"\<close>, is left over.\<close>

lemma left_run:
  "match_products_with ids_of_title pick_first sim_09 left_amazon left_flipkart = Inr left_result"
  by code_simp

lemma left_matches_run:
  "matches ids_of_title pick_first sim_09 left_amazon left_flipkart = Inr left_matches"
  by code_simp

lemma left_leftover:
  "leftover left_matches left_flipkart = [fk_listing ''LG 43 inch TV'' 31000]"
proof -
  have "consumed left_matches = {1}"
    by (auto simp: consumed_def left_matches_def)
  then show ?thesis
    by (simp add: leftover_def left_flipkart_def)
qed

theorem record_sources_witness:
  "match_products_with ids_of_title pick_first sim_09 left_amazon left_flipkart = Inr left_result \<and>
   left_amazon = [amz_listing ''LG 32 inch TV'' 15000] \<and>
   left_flipkart = [fk_listing ''LG 43 inch TV'' 31000, fk_listing ''LG 32 inch TV'' 14500] \<and>
   (\<exists>anchors lefts.
      mset left_result = mset anchors + mset lefts \<and>
      length anchors = 1 \<and> length lefts = 1 \<and>
      u_title (anchors ! 0) = ''LG 32 inch TV'' \<and> u_image (anchors ! 0) = Some ''a.jpg'' \<and>
      u_rating (anchors ! 0) = Some 4.5 \<and> u_is_prime (anchors ! 0) \<and>
      amazon_price (anchors ! 0) = Some 15000 \<and>
      amazon_link (anchors ! 0) = Some ''amazon.in/dp/1'' \<and>
      flipkart_price (anchors ! 0) = Some 14500 \<and>
      flipkart_link (anchors ! 0) = Some ''flipkart.com/p/1'' \<and>
      u_title (lefts ! 0) = ''LG 43 inch TV'' \<and> u_image (lefts ! 0) = Some ''f.jpg'' \<and>
      u_rating (lefts ! 0) = Some 4 \<and> \<not> u_is_prime (lefts ! 0) \<and>
      amazon_price (lefts ! 0) = None \<and> amazon_link (lefts ! 0) = None \<and>
      flipkart_price (lefts ! 0) = Some 31000 \<and>
      flipkart_link (lefts ! 0) = Some ''flipkart.com/p/1'')"
proof -
  have ne: "\<not> (left_amazon = [] \<or> left_flipkart = [])"
    by (simp add: left_amazon_def left_flipkart_def)
  note r = record_sources[OF left_run, unfolded if_not_P[OF ne]]
  from r obtain bs where r1: "\<exists>anchors lefts.
             matches ids_of_title pick_first sim_09 left_amazon left_flipkart = Inr bs \<and>
             mset left_result = mset anchors + mset lefts \<and>
             length anchors = length left_amazon \<and>
             length lefts = length (leftover bs left_flipkart) \<and>
             (\<forall>i < length left_amazon.
                u_title (anchors ! i) = title (left_amazon ! i) \<and>
                u_image (anchors ! i) = image (left_amazon ! i) \<and>
                u_rating (anchors ! i) = rating (left_amazon ! i) \<and>
                u_is_prime (anchors ! i) = is_prime (left_amazon ! i) \<and>
                amazon_price (anchors ! i) = price (left_amazon ! i) \<and>
                amazon_link (anchors ! i) = link (left_amazon ! i) \<and>
                flipkart_price (anchors ! i) =
                  (case best_match (bs ! i) of Some m \<Rightarrow> price m | None \<Rightarrow> None) \<and>
                flipkart_link (anchors ! i) =
                  (case best_match (bs ! i) of Some m \<Rightarrow> link m | None \<Rightarrow> None) \<and>
                (best_match (bs ! i) = None \<or>
                 (\<exists>j < length left_flipkart.
                    best_match (bs ! i) = Some (left_flipkart ! j)))) \<and>
             (\<forall>k < length (leftover bs left_flipkart).
                u_title (lefts ! k) = title (leftover bs left_flipkart ! k) \<and>
                u_image (lefts ! k) = image (leftover bs left_flipkart ! k) \<and>
                u_rating (lefts ! k) = rating (leftover bs left_flipkart ! k) \<and>
                \<not> u_is_prime (lefts ! k) \<and>
                amazon_price (lefts ! k) = None \<and>
                amazon_link (lefts ! k) = None \<and>
                flipkart_price (lefts ! k) = price (leftover bs left_flipkart ! k) \<and>
                flipkart_link (lefts ! k) = link (leftover bs left_flipkart ! k) \<and>
                (\<exists>j < length left_flipkart.
                   int j \<notin> consumed bs \<and>
                   leftover bs left_flipkart ! k = left_flipkart ! j))" ..
  then obtain anchors lefts where all:
            "matches ids_of_title pick_first sim_09 left_amazon left_flipkart = Inr bs \<and>
             mset left_result = mset anchors + mset lefts \<and>
             length anchors = length left_amazon \<and>
             length lefts = length (leftover bs left_flipkart) \<and>
             (\<forall>i < length left_amazon.
                u_title (anchors ! i) = title (left_amazon ! i) \<and>
                u_image (anchors ! i) = image (left_amazon ! i) \<and>
                u_rating (anchors ! i) = rating (left_amazon ! i) \<and>
                u_is_prime (anchors ! i) = is_prime (left_amazon ! i) \<and>
                amazon_price (anchors ! i) = price (left_amazon ! i) \<and>
                amazon_link (anchors ! i) = link (left_amazon ! i) \<and>
                flipkart_price (anchors ! i) =
                  (case best_match (bs ! i) of Some m \<Rightarrow> price m | None \<Rightarrow> None) \<and>
                flipkart_link (anchors ! i) =
                  (case best_match (bs ! i) of Some m \<Rightarrow> link m | None \<Rightarrow> None) \<and>
                (best_match (bs ! i) = None \<or>
                 (\<exists>j < length left_flipkart.
                    best_match (bs ! i) = Some (left_flipkart ! j)))) \<and>
             (\<forall>k < length (leftover bs left_flipkart).
                u_title (lefts ! k) = title (leftover bs left_flipkart ! k) \<and>
                u_image (lefts ! k) = image (leftover bs left_flipkart ! k) \<and>
                u_rating (lefts ! k) = rating (leftover bs left_flipkart ! k) \<and>
                \<not> u_is_prime (lefts ! k) \<and>
                amazon_price (lefts ! k) = None \<and>
                amazon_link (lefts ! k) = None \<and>
                flipkart_price (lefts ! k) = price (leftover bs left_flipkart ! k) \<and>
                flipkart_link (lefts ! k) = link (leftover bs left_flipkart ! k) \<and>
                (\<exists>j < length left_flipkart.
                   int j \<notin> consumed bs \<and>
                   leftover bs left_flipkart ! k = left_flipkart ! j))"
    by (elim exE)
  note m = all[THEN conjunct1]
  note s = all[THEN conjunct2, THEN conjunct1]
  note la = all[THEN conjunct2, THEN conjunct2, THEN conjunct1]
  note ll = all[THEN conjunct2, THEN conjunct2, THEN conjunct2, THEN conjunct1]
  note a = all[THEN conjunct2, THEN conjunct2, THEN conjunct2, THEN conjunct2, THEN conjunct1]
  note l = all[THEN conjunct2, THEN conjunct2, THEN conjunct2, THEN conjunct2, THEN conjunct2]
  from m left_matches_run have bs: "bs = left_matches" by simp
  have i0: "0 < length left_amazon" by (simp add: left_amazon_def)
  have k0: "0 < length (leftover bs left_flipkart)" by (simp add: bs left_leftover)
  from a[rule_format, OF i0] have a0:
    "u_title (anchors ! 0) = ''LG 32 inch TV'' \<and> u_image (anchors ! 0) = Some ''a.jpg'' \<and>
      u_rating (anchors ! 0) = Some 4.5 \<and> u_is_prime (anchors ! 0) \<and>
      amazon_price (anchors ! 0) = Some 15000 \<and>
      amazon_link (anchors ! 0) = Some ''amazon.in/dp/1'' \<and>
      flipkart_price (anchors ! 0) = Some 14500 \<and>
      flipkart_link (anchors ! 0) = Some ''flipkart.com/p/1''"
    by (simp add: bs left_amazon_def left_matches_def amz_listing_def fk_listing_def)
  from l[rule_format, OF k0] have l0:
    "u_title (lefts ! 0) = ''LG 43 inch TV'' \<and> u_image (lefts ! 0) = Some ''f.jpg'' \<and>
      u_rating (lefts ! 0) = Some 4 \<and> \<not> u_is_prime (lefts ! 0) \<and>
      amazon_price (lefts ! 0) = None \<and> amazon_link (lefts ! 0) = None \<and>
      flipkart_price (lefts ! 0) = Some 31000 \<and>
      flipkart_link (lefts ! 0) = Some ''flipkart.com/p/1''"
    by (simp add: bs left_leftover fk_listing_def)
  from la have la1: "length anchors = 1" by (simp add: left_amazon_def)
  from ll have ll1: "length lefts = 1" by (simp add: bs left_leftover)
  from s la1 ll1 a0 l0 have ex: "\<exists>anchors lefts.
      mset left_result = mset anchors + mset lefts \<and>
      length anchors = 1 \<and> length lefts = 1 \<and>
      u_title (anchors ! 0) = ''LG 32 inch TV'' \<and> u_image (anchors ! 0) = Some ''a.jpg'' \<and>
      u_rating (anchors ! 0) = Some 4.5 \<and> u_is_prime (anchors ! 0) \<and>
      amazon_price (anchors ! 0) = Some 15000 \<and>
      amazon_link (anchors ! 0) = Some ''amazon.in/dp/1'' \<and>
      flipkart_price (anchors ! 0) = Some 14500 \<and>
      flipkart_link (anchors ! 0) = Some ''flipkart.com/p/1'' \<and>
      u_title (lefts ! 0) = ''LG 43 inch TV'' \<and> u_image (lefts ! 0) = Some ''f.jpg'' \<and>
      u_rating (lefts ! 0) = Some 4 \<and> \<not> u_is_prime (lefts ! 0) \<and>
      amazon_price (lefts ! 0) = None \<and> amazon_link (lefts ! 0) = None \<and>
      flipkart_price (lefts ! 0) = Some 31000 \<and>
      flipkart_link (lefts ! 0) = Some ''flipkart.com/p/1''"
    by (intro exI[of _ anchors] exI[of _ lefts]) simp
  from left_run left_amazon_def left_flipkart_def ex show ?thesis
    by - (intro conjI; assumption)
qed

end
